theory Spec2Isabelle
  imports Complex_Main "HOL-Library.Multiset"
begin

section \<open>Numeric model\<close>

text \<open>
  The series handled by \<^verbatim>\<open>app.py\<close> are numpy arrays of float64. A series is a list of
  real numbers and a boolean numpy array is a list of booleans. The detectors are given
  in two readings. The exact reading of this section and the next states which
  computation each function performs: its operations are those of the real numbers, and
  the literals \<^verbatim>\<open>1e-9\<close> and \<^verbatim>\<open>0.6745\<close> stand for the decimal numbers they denote. What
  the Z-Score detector returns in float64, where every operation rounds, is the float64
  reading given further down; a property that rounding decides is settled there.
\<close>

definition eps :: real where
  "eps = 1 / 10 ^ 9"

text \<open>
  In the exact reading, \<^verbatim>\<open>np.mean\<close>: the sum divided by the number of elements.
  \<^verbatim>\<open>np.std\<close> (with the default \<^verbatim>\<open>ddof=0\<close>): the square root of the mean of the
  squared deviations from the mean. \<^verbatim>\<open>np.median\<close>: the middle element of the sorted
  array, or the mean of the two middle elements when the length is even.
  All three are reached in \<^verbatim>\<open>app.py\<close> only behind the guard \<^verbatim>\<open>len(series) < 2\<close>, that
  is on arrays of at least two elements.
\<close>

definition np_mean :: "real list \<Rightarrow> real" where
  "np_mean xs = sum_list xs / real (length xs)"

definition np_std :: "real list \<Rightarrow> real" where
  "np_std xs = sqrt (np_mean (map (\<lambda>x. (x - np_mean xs) * (x - np_mean xs)) xs))"

definition np_median :: "real list \<Rightarrow> real" where
  "np_median xs =
     (let s = sort xs; n = length s
      in if odd n then s ! (n div 2)
         else (s ! (n div 2 - 1) + s ! (n div 2)) / 2)"

section \<open>Anomaly detection algorithms\<close>

text \<open>
  \<^verbatim>\<open>
  def detect_anomalies_zscore(series, threshold):
      if len(series) < 2:
          return np.array([False] * len(series))
      mean = np.mean(series)
      std = np.std(series)
      z_scores = (series - mean) / (std + 1e-9)
      return np.abs(z_scores) > threshold
  \<close>
  The arithmetic on arrays is elementwise (broadcasting a scalar).
\<close>

definition detect_anomalies_zscore :: "real list \<Rightarrow> real \<Rightarrow> bool list" where
  "detect_anomalies_zscore series threshold =
     (if length series < 2 then replicate (length series) False
      else
        let mean = np_mean series;
            std = np_std series;
            z_scores = map (\<lambda>z. z / (std + eps)) (map (\<lambda>x. x - mean) series)
        in map (\<lambda>a. a > threshold) (map abs z_scores))"

text \<open>
  \<^verbatim>\<open>
  def detect_anomalies_mad(series, threshold):
      if len(series) < 2:
          return np.array([False] * len(series))
      median = np.median(series)
      mad = np.median(np.abs(series - median))
      modified_z_scores = 0.6745 * (series - median) / (mad + 1e-9)
      return np.abs(modified_z_scores) > threshold
  \<close>
\<close>

definition detect_anomalies_mad :: "real list \<Rightarrow> real \<Rightarrow> bool list" where
  "detect_anomalies_mad series threshold =
     (if length series < 2 then replicate (length series) False
      else
        let median = np_median series;
            mad = np_median (map abs (map (\<lambda>x. x - median) series));
            modified_z_scores =
              map (\<lambda>y. y / (mad + eps)) (map (\<lambda>d. 0.6745 * d) (map (\<lambda>x. x - median) series))
        in map (\<lambda>a. a > threshold) (map abs modified_z_scores))"

text \<open>
  Errors raised by Python or by a library are values of this type; a function that can
  raise returns \<open>py_error + 'a\<close>.
\<close>

datatype py_error = ValueError | IndexError | InvalidParameterError

text \<open>
  \<^verbatim>\<open>
  def detect_anomalies_isolation_forest(series, contamination):
      if len(series) < 2:
          return np.array([False] * len(series))
      series_reshaped = series.reshape(-1, 1)
      model = IsolationForest(contamination=contamination, random_state=42)
      preds = model.fit_predict(series_reshaped)
      return preds == -1
  \<close>
  scikit-learn is not part of the repository. Building the model and calling
  \<^verbatim>\<open>fit_predict\<close> is the parameter \<open>fit_predict\<close>: with the seed fixed it is a function of
  the contamination and of the reshaped data, and it either raises or returns one label
  (1 or -1) per row. There is no \<^verbatim>\<open>try\<close> in the source, so what the library raises
  leaves the function.
\<close>

type_synonym fit_predict = "real \<Rightarrow> real list list \<Rightarrow> py_error + int list"

definition reshape_column :: "real list \<Rightarrow> real list list" where
  "reshape_column series = map (\<lambda>x. [x]) series"

definition detect_anomalies_isolation_forest ::
    "fit_predict \<Rightarrow> real list \<Rightarrow> real \<Rightarrow> py_error + bool list" where
  "detect_anomalies_isolation_forest fit_predict series contamination =
     (if length series < 2 then Inr (replicate (length series) False)
      else
        let series_reshaped = reshape_column series
        in case fit_predict contamination series_reshaped of
             Inl e \<Rightarrow> Inl e
           | Inr preds \<Rightarrow> Inr (map (\<lambda>p. p = - 1) preds))"

text \<open>
  A stand-in for the library, used to run the detector on concrete inputs. It applies the
  parameter check that scikit-learn documents for \<^verbatim>\<open>contamination\<close> (a float in the range
  (0, 0.5], anything else raises \<^verbatim>\<open>InvalidParameterError\<close>) and then labels every row as an
  inlier.
\<close>

definition fit_predict_checked :: fit_predict where
  "fit_predict_checked contamination X =
     (if 0 < contamination \<and> contamination \<le> 1 / 2 then Inr (replicate (length X) 1)
      else Inl InvalidParameterError)"

section \<open>The statistics as the specification words them\<close>



text \<open>Reordering a list by an index map: position \<open>i\<close> of the result holds element \<open>p i\<close>.\<close>

definition permute_by :: "(nat \<Rightarrow> nat) \<Rightarrow> 'a list \<Rightarrow> 'a list" where
  "permute_by p xs = map (\<lambda>i. xs ! p i) [0..<length xs]"

section \<open>The Z-Score detector in float64\<close>

text \<open>
  The sums behind \<^verbatim>\<open>np.mean\<close> and \<^verbatim>\<open>np.std\<close> are float64 sums, and their last bits depend
  on the values and on the order of the elements. Where that decides a property, the
  Z-Score detector is read in float64. A double is the real number it denotes; \<open>f64\<close>
  rounds a real number to the nearest double (a significand of 53 bits, ties to the even
  significand, subnormal numbers below 2 to the power -1022), and an arithmetic operation
  of the source is the exact operation followed by \<open>f64\<close>, as IEEE 754 defines it. A
  decimal literal of the source is \<open>f64\<close> of the decimal number. Overflow to infinity and
  nan are not represented.
\<close>

definition round_even :: "real \<Rightarrow> int" where
  "round_even y =
     (let f = \<lfloor>y\<rfloor>; d = y - of_int f
      in if d < 1 / 2 then f
         else if 1 / 2 < d then f + 1
         else if even f then f else f + 1)"

definition f64 :: "real \<Rightarrow> real" where
  "f64 x =
     (if x = 0 then 0
      else
        let e = max \<lfloor>log 2 \<bar>x\<bar>\<rfloor> (- 1022);
            u = 2 powi (e - 52)
        in of_int (round_even (x / u)) * u)"

definition f64_add :: "real \<Rightarrow> real \<Rightarrow> real" where
  "f64_add a b = f64 (a + b)"

definition f64_sub :: "real \<Rightarrow> real \<Rightarrow> real" where
  "f64_sub a b = f64 (a - b)"

definition f64_mul :: "real \<Rightarrow> real \<Rightarrow> real" where
  "f64_mul a b = f64 (a * b)"

definition f64_div :: "real \<Rightarrow> real \<Rightarrow> real" where
  "f64_div a b = f64 (a / b)"

definition f64_sqrt :: "real \<Rightarrow> real" where
  "f64_sqrt a = f64 (sqrt a)"

text \<open>
  \<^verbatim>\<open>np.add.reduce\<close> on a contiguous float64 array is NumPy's pairwise summation,
  started from the identity 0. Fewer than 8 elements are added from left to right. Up to
  128 elements go through eight running sums, combined as
  \<open>((r0 + r1) + (r2 + r3)) + ((r4 + r5) + (r6 + r7))\<close>, and the elements left over are
  added one by one. A longer array is cut in two, the first part a multiple of 8 long,
  and the sums of the parts are added.
\<close>

fun accumulate8 :: "real list \<Rightarrow> real list \<Rightarrow> real list \<times> real list" where
  "accumulate8 r a =
     (if 8 \<le> length a then accumulate8 (map2 f64_add r (take 8 a)) (drop 8 a)
      else (r, a))"

definition sum8 :: "real list \<Rightarrow> real" where
  "sum8 r =
     f64_add (f64_add (f64_add (r ! 0) (r ! 1)) (f64_add (r ! 2) (r ! 3)))
             (f64_add (f64_add (r ! 4) (r ! 5)) (f64_add (r ! 6) (r ! 7)))"

function pairwise_sum :: "real list \<Rightarrow> real" where
  "pairwise_sum a =
     (if length a < 8 then foldl f64_add 0 a
      else if length a \<le> 128 then
        (case accumulate8 (take 8 a) (drop 8 a) of
           (r, rest) \<Rightarrow> foldl f64_add (sum8 r) rest)
      else
        f64_add (pairwise_sum (take (length a div 2 - length a div 2 mod 8) a))
                (pairwise_sum (drop (length a div 2 - length a div 2 mod 8) a)))"
  by pat_completeness auto
termination
  by (relation "measure length") auto

declare accumulate8.simps [simp del]

declare pairwise_sum.simps [simp del]

definition np_sum_f64 :: "real list \<Rightarrow> real" where
  "np_sum_f64 a = f64_add 0 (pairwise_sum a)"

text \<open>
  \<^verbatim>\<open>np.mean\<close> divides the sum by the count. \<^verbatim>\<open>np.std\<close> computes the mean, subtracts it
  from every element, multiplies each deviation by itself, divides the sum of the squares
  by the count and takes the square root.
\<close>

definition np_mean_f64 :: "real list \<Rightarrow> real" where
  "np_mean_f64 a = f64_div (np_sum_f64 a) (real (length a))"

definition np_std_f64 :: "real list \<Rightarrow> real" where
  "np_std_f64 a =
     (let arrmean = f64_div (np_sum_f64 a) (real (length a));
          x = map (\<lambda>v. f64_sub v arrmean) a;
          x2 = map (\<lambda>v. f64_mul v v) x
      in f64_sqrt (f64_div (np_sum_f64 x2) (real (length a))))"

definition eps_f64 :: real where
  "eps_f64 = f64 (1 / 10 ^ 9)"

definition detect_anomalies_zscore_f64 :: "real list \<Rightarrow> real \<Rightarrow> bool list" where
  "detect_anomalies_zscore_f64 series threshold =
     (if length series < 2 then replicate (length series) False
      else
        let mean = np_mean_f64 series;
            std = np_std_f64 series;
            z_scores = map (\<lambda>z. f64_div z (f64_add std eps_f64))
                         (map (\<lambda>x. f64_sub x mean) series)
        in map (\<lambda>a. a > threshold) (map abs z_scores))"

section \<open>The calculation window\<close>

text \<open>
  \<^verbatim>\<open>st.session_state.data = deque(maxlen=100)\<close>. A \<^verbatim>\<open>collections.deque\<close> with a bound, from
  the standard library: \<^verbatim>\<open>append\<close> adds at the right end and, when the length then
  exceeds \<^verbatim>\<open>maxlen\<close>, drops one element from the left end (with \<^verbatim>\<open>maxlen = 0\<close> the deque
  stays empty and nothing is raised); \<^verbatim>\<open>deque(iterable, maxlen=m)\<close> raises \<^verbatim>\<open>ValueError\<close>
  for a negative \<open>m\<close> and otherwise appends the elements one by one; \<^verbatim>\<open>clear\<close> empties it
  and keeps the bound.
\<close>

record deque =
  items :: "real list"
  maxlen :: nat

definition deque_append :: "deque \<Rightarrow> real \<Rightarrow> deque" where
  "deque_append d x =
     (let ys = items d @ [x]
      in d\<lparr>items := (if length ys > maxlen d then tl ys else ys)\<rparr>)"

definition deque_extend :: "deque \<Rightarrow> real list \<Rightarrow> deque" where
  "deque_extend d xs = foldl deque_append d xs"

definition deque_new :: "real list \<Rightarrow> int \<Rightarrow> py_error + deque" where
  "deque_new xs m =
     (if m < 0 then Inl ValueError
      else Inr (deque_extend \<lparr>items = [], maxlen = nat m\<rparr> xs))"

definition deque_clear :: "deque \<Rightarrow> deque" where
  "deque_clear d = d\<lparr>items := []\<rparr>"

section \<open>Session state\<close>

text \<open>
  The fields of \<^verbatim>\<open>st.session_state\<close>. A log line is
  \<^verbatim>\<open>f"[{time.strftime('%H:%M:%S')}] Anomaly: {series[-1]:.2f}"\<close>; it is kept as the pair of
  the clock reading and the value, unformatted. An entry of \<^verbatim>\<open>all_anomalies\<close> is the pair
  \<^verbatim>\<open>(time_step - 1, series[-1])\<close>.
\<close>

record session_state =
  running :: bool
  data :: deque
  anomaly_log :: "(string \<times> real) list"
  price :: real
  all_data :: "real list"
  all_anomalies :: "(int \<times> real) list"
  time_step :: int

definition initial_state :: session_state where
  "initial_state =
     \<lparr>running = False, data = \<lparr>items = [], maxlen = 100\<rparr>, anomaly_log = [],
      price = 100, all_data = [], all_anomalies = [], time_step = 0\<rparr>"

section \<open>Sidebar controls\<close>

text \<open>
  Streamlit is not part of the repository. One run of the script sees each button as
  pressed or not, one option of the select box, and each slider at a position.
  \<^verbatim>\<open>st.sidebar.slider(label, min_value, max_value, value)\<close> returns the default \<^verbatim>\<open>value\<close>
  until the user moves the slider, and a slider cannot be moved outside
  \<^verbatim>\<open>[min_value, max_value]\<close>: the model confines the requested position to that range.
\<close>

definition slider :: "'a::linorder \<Rightarrow> 'a \<Rightarrow> 'a \<Rightarrow> 'a option \<Rightarrow> 'a" where
  "slider min_value max_value dflt pos =
     (case pos of None \<Rightarrow> dflt | Some v \<Rightarrow> max min_value (min max_value v))"

datatype algorithm = Sel_Z_Score | Sel_MAD | Sel_Isolation_Forest

record controls =
  start_pressed :: bool
  stop_pressed :: bool
  reset_pressed :: bool
  selected :: algorithm
  window_pos :: "int option"
  z_thresh :: "real option"
  mad_thresh :: "real option"
  iso_contam :: "real option"

text \<open>
  What the sidebar leaves for the main loop: the selected method with the one parameter
  the script defines for it (\<^verbatim>\<open>threshold\<close> for Z-Score and MAD, \<^verbatim>\<open>contamination\<close> for
  Isolation Forest), and \<^verbatim>\<open>window_size\<close>.
\<close>

datatype detector_method = Z_Score real | MAD real | Isolation_Forest real

record config =
  chosen_method :: detector_method
  window_size :: int

definition press_start :: "session_state \<Rightarrow> session_state" where
  "press_start st = st\<lparr>running := True\<rparr>"

definition press_stop :: "session_state \<Rightarrow> session_state" where
  "press_stop st = st\<lparr>running := False\<rparr>"

definition press_reset :: "session_state \<Rightarrow> session_state" where
  "press_reset st =
     st\<lparr>running := False, data := deque_clear (data st), anomaly_log := [], price := 100,
        all_data := [], all_anomalies := [], time_step := 0\<rparr>"

text \<open>
  \<^verbatim>\<open>
  if window_size != st.session_state.data.maxlen:
      st.session_state.data = deque(list(st.session_state.data), maxlen=window_size)
  \<close>
  (\<open>w\<close> is the script's \<^verbatim>\<open>window_size\<close>.) An error carries the session state as it is when
  the exception leaves the script.
\<close>

definition sync_window :: "int \<Rightarrow> session_state \<Rightarrow> py_error \<times> session_state + session_state" where
  "sync_window w st =
     (if w \<noteq> int (maxlen (data st)) then
        (case deque_new (items (data st)) w of
           Inl e \<Rightarrow> Inl (e, st)
         | Inr d \<Rightarrow> Inr (st\<lparr>data := d\<rparr>))
      else Inr st)"

definition select_method :: "controls \<Rightarrow> detector_method" where
  "select_method c =
     (case selected c of
        Sel_Z_Score \<Rightarrow> Z_Score (slider 1 5 3 (z_thresh c))
      | Sel_MAD \<Rightarrow> MAD (slider 1 10 (7 / 2) (mad_thresh c))
      | Sel_Isolation_Forest \<Rightarrow> Isolation_Forest (slider (1 / 100) (1 / 2) (1 / 20) (iso_contam c)))"

definition sidebar :: "controls \<Rightarrow> session_state \<Rightarrow> py_error \<times> session_state + config \<times> session_state" where
  "sidebar c st =
     (let st1 = (if start_pressed c then press_start st else st);
          st2 = (if stop_pressed c then press_stop st1 else st1);
          st3 = (if reset_pressed c then press_reset st2 else st2);
          w = slider 10 500 100 (window_pos c)
      in case sync_window w st3 of
           Inl e \<Rightarrow> Inl e
         | Inr st4 \<Rightarrow> Inr (\<lparr>chosen_method = select_method c, window_size = w\<rparr>, st4))"

section \<open>Main simulation loop\<close>

text \<open>
  The random draws of one iteration and the clock reading are its inputs:
  \<^verbatim>\<open>drift = np.random.normal(0, 0.2)\<close>,
  \<^verbatim>\<open>shock = np.random.normal(0, 10) if np.random.rand() < 0.05 else 0\<close>.
\<close>

record tick_input =
  drift :: real
  rand :: real
  shock_draw :: real
  clock :: string

text \<open>Lines 154 to 165: the new price is appended to the window and to the history.\<close>

definition observe :: "tick_input \<Rightarrow> session_state \<Rightarrow> session_state" where
  "observe inp st =
     (let shock = (if rand inp < 5 / 100 then shock_draw inp else 0);
          p = max (price st + (drift inp + shock)) 10
      in st\<lparr>price := p, data := deque_append (data st) p, all_data := all_data st @ [p],
            time_step := time_step st + 1\<rparr>)"

definition run_detector :: "fit_predict \<Rightarrow> detector_method \<Rightarrow> real list \<Rightarrow> py_error + bool list" where
  "run_detector fit_predict m series =
     (case m of
        Z_Score threshold \<Rightarrow> Inr (detect_anomalies_zscore series threshold)
      | MAD threshold \<Rightarrow> Inr (detect_anomalies_mad series threshold)
      | Isolation_Forest contamination \<Rightarrow>
          detect_anomalies_isolation_forest fit_predict series contamination)"

text \<open>Lines 178 to 183, reached when \<^verbatim>\<open>anomalies[-1]\<close> is true.\<close>

definition log_anomaly :: "string \<Rightarrow> real list \<Rightarrow> session_state \<Rightarrow> py_error \<times> session_state + session_state" where
  "log_anomaly now series st =
     (if series = [] then Inl (IndexError, st)
      else
        let st1 = st\<lparr>anomaly_log := (now, last series) # anomaly_log st,
                     all_anomalies := all_anomalies st @ [(time_step st - 1, last series)]\<rparr>
        in Inr (if length (anomaly_log st1) > 50
                then st1\<lparr>anomaly_log := take 50 (anomaly_log st1)\<rparr> else st1))"

text \<open>Lines 169 to 183: the selected detector runs on the window, its last flag decides.\<close>

definition detect_and_log ::
    "fit_predict \<Rightarrow> config \<Rightarrow> string \<Rightarrow> session_state \<Rightarrow> py_error \<times> session_state + session_state" where
  "detect_and_log fit_predict cfg now st =
     (let series = items (data st)
      in case run_detector fit_predict (chosen_method cfg) series of
           Inl e \<Rightarrow> Inl (e, st)
         | Inr anomalies \<Rightarrow>
             if anomalies = [] then Inl (IndexError, st)
             else if last anomalies then log_anomaly now series st
             else Inr st)"

definition tick ::
    "fit_predict \<Rightarrow> config \<Rightarrow> tick_input \<Rightarrow> session_state \<Rightarrow> py_error \<times> session_state + session_state" where
  "tick fit_predict cfg inp st =
     (let st1 = observe inp st;
          series = items (data st1)
      in if int (length series) \<ge> window_size cfg
         then detect_and_log fit_predict cfg (clock inp) st1
         else Inr st1)"

text \<open>
  \<^verbatim>\<open>while st.session_state.running:\<close> never ends by itself: an iteration follows another
  until an exception or until Streamlit interrupts the script for the next run. The
  inputs of the iterations that take place are the list \<open>inps\<close>. Drawing the dashboard and
  sleeping change nothing in the session state and are left out.
\<close>

fun main_loop ::
    "fit_predict \<Rightarrow> config \<Rightarrow> tick_input list \<Rightarrow> session_state \<Rightarrow> py_error \<times> session_state + session_state" where
  "main_loop fit_predict cfg [] st = Inr st"
| "main_loop fit_predict cfg (inp # inps) st =
     (if running st then
        (case tick fit_predict cfg inp st of
           Inl e \<Rightarrow> Inl e
         | Inr st' \<Rightarrow> main_loop fit_predict cfg inps st')
      else Inr st)"

text \<open>One run of the script: the sidebar, then the loop.\<close>

definition script_run ::
    "fit_predict \<Rightarrow> controls \<Rightarrow> tick_input list \<Rightarrow> session_state \<Rightarrow> py_error \<times> session_state + session_state" where
  "script_run fit_predict c inps st =
     (case sidebar c st of
        Inl e \<Rightarrow> Inl e
      | Inr (cfg, st') \<Rightarrow> main_loop fit_predict cfg inps st')"

text \<open>
  A session is a sequence of runs on the same session state; after an exception the next
  run starts from the state the exception left.
\<close>

definition state_after :: "py_error \<times> session_state + session_state \<Rightarrow> session_state" where
  "state_after r = (case r of Inl (e, st) \<Rightarrow> st | Inr st \<Rightarrow> st)"

fun session :: "fit_predict \<Rightarrow> (controls \<times> tick_input list) list \<Rightarrow> session_state \<Rightarrow> session_state" where
  "session fit_predict [] st = st"
| "session fit_predict ((c, inps) # runs) st =
     session fit_predict runs (state_after (script_run fit_predict c inps st))"

section \<open>Notions of the specification\<close>

text \<open>The most recent \<open>k\<close> of the values \<open>vs\<close>, in their order.\<close>

definition most_recent :: "nat \<Rightarrow> 'a list \<Rightarrow> 'a list" where
  "most_recent k vs = drop (length vs - k) vs"

text \<open>
  The window holds the most recent \<open>min(C, number of values pushed)\<close> values, for its
  capacity \<open>C\<close> and the values \<open>pushed\<close> so far.
\<close>

definition holds_most_recent :: "deque \<Rightarrow> real list \<Rightarrow> bool" where
  "holds_most_recent d pushed \<longleftrightarrow>
     items d = most_recent (min (maxlen d) (length pushed)) pushed"

text \<open>
  The history is consistent: \<^verbatim>\<open>time_step\<close> counts the values of \<^verbatim>\<open>all_data\<close>, every
  record \<open>(i, v)\<close> of \<^verbatim>\<open>all_anomalies\<close> has \<open>v\<close> at index \<open>i\<close> of \<^verbatim>\<open>all_data\<close>, and the
  recorded indices increase strictly.
\<close>

definition records_consistent :: "session_state \<Rightarrow> bool" where
  "records_consistent st \<longleftrightarrow>
     time_step st = int (length (all_data st)) \<and>
     (\<forall>(i, v) \<in> set (all_anomalies st).
        0 \<le> i \<and> i < time_step st \<and> all_data st ! nat i = v) \<and>
     sorted_wrt (<) (map fst (all_anomalies st))"

text \<open>The state right after a push: consistent, and no record yet for the newest value.\<close>

definition just_pushed :: "session_state \<Rightarrow> bool" where
  "just_pushed st \<longleftrightarrow>
     records_consistent st \<and>
     (\<forall>(i, v) \<in> set (all_anomalies st). i < time_step st - 1) \<and>
     (items (data st) \<noteq> [] \<longrightarrow>
        all_data st \<noteq> [] \<and> last (items (data st)) = last (all_data st))"

section \<open>A sample run\<close>

text \<open>
  Concrete inputs on which the model is evaluated: the sidebar with Start pressed, MAD
  selected at its default threshold 3.5 and the window size set to 10; nine iterations
  without drift or shock, which leave the price at 100, and a tenth with a shock of 100.
\<close>

definition calm_tick :: "string \<Rightarrow> tick_input" where
  "calm_tick now = \<lparr>drift = 0, rand = 1, shock_draw = 0, clock = now\<rparr>"

definition shock_tick :: "string \<Rightarrow> tick_input" where
  "shock_tick now = \<lparr>drift = 0, rand = 0, shock_draw = 100, clock = now\<rparr>"

definition example_controls :: controls where
  "example_controls =
     \<lparr>start_pressed = True, stop_pressed = False, reset_pressed = False,
      selected = Sel_MAD, window_pos = Some 10, z_thresh = None, mad_thresh = None,
      iso_contam = None\<rparr>"

definition example_calm_inputs :: "tick_input list" where
  "example_calm_inputs =
     [calm_tick ''12:00:00'', calm_tick ''12:00:01'', calm_tick ''12:00:02'',
      calm_tick ''12:00:03'', calm_tick ''12:00:04'', calm_tick ''12:00:05'',
      calm_tick ''12:00:06'', calm_tick ''12:00:07'', calm_tick ''12:00:08'']"

definition example_config :: config where
  "example_config = \<lparr>chosen_method = MAD (7 / 2), window_size = 10\<rparr>"

definition example_start :: session_state where
  "example_start = initial_state\<lparr>running := True, data := \<lparr>items = [], maxlen = 10\<rparr>\<rparr>"

definition example_state_9 :: session_state where
  "example_state_9 =
     \<lparr>running = True,
      data = \<lparr>items = [100, 100, 100, 100, 100, 100, 100, 100, 100], maxlen = 10\<rparr>,
      anomaly_log = [], price = 100,
      all_data = [100, 100, 100, 100, 100, 100, 100, 100, 100],
      all_anomalies = [], time_step = 9\<rparr>"

definition example_state_10 :: session_state where
  "example_state_10 =
     \<lparr>running = True,
      data = \<lparr>items = [100, 100, 100, 100, 100, 100, 100, 100, 100, 200], maxlen = 10\<rparr>,
      anomaly_log = [(''12:00:09'', 200)], price = 200,
      all_data = [100, 100, 100, 100, 100, 100, 100, 100, 100, 200],
      all_anomalies = [(9, 200)], time_step = 10\<rparr>"

section \<open>Properties of the detectors\<close>








subsection \<open>The Z-Score detector computes the documented formula\<close>






subsection \<open>The MAD detector computes the documented formula\<close>



subsection \<open>Series of fewer than two elements\<close>

text \<open>
  Claim C3. For every series with fewer than two elements (empty or a single element) and
  every parameter value, each of the three detectors (Z-Score, MAD, Isolation Forest)
  returns an all-false result of the length of the series; the Isolation Forest variant
  does so without calling the library, whatever the library would do.
\<close>

theorem short_series_all_false:
  assumes "length series < 2"
  shows "detect_anomalies_zscore series threshold = replicate (length series) False \<and>
         detect_anomalies_mad series threshold = replicate (length series) False \<and>
         detect_anomalies_isolation_forest fit_predict series contamination
           = Inr (replicate (length series) False)"
  using assms
  by (simp add: detect_anomalies_zscore_def detect_anomalies_mad_def
      detect_anomalies_isolation_forest_def)

theorem short_series_all_false_witness:
  "length [5 :: real] < 2 \<and>
   detect_anomalies_zscore [5] 3 = [False] \<and>
   detect_anomalies_mad [5] 3 = [False] \<and>
   detect_anomalies_isolation_forest fit_predict_checked [5] (1 / 20) = Inr [False]"
proof -
  have h: "length [5 :: real] < 2" by simp
  show ?thesis
    using h short_series_all_false [OF h, where threshold = 3
        and fit_predict = fit_predict_checked and contamination = "1 / 20"]
    by simp
qed

subsection \<open>Evaluating float64 operations\<close>

lemma round_even_eqI:
  assumes "\<bar>y - of_int m\<bar> < 1 / 2 \<or> (\<bar>y - of_int m\<bar> = 1 / 2 \<and> even m)"
  shows "round_even y = m"
proof -
  consider (up) "of_int m \<le> y" "y - of_int m < 1 / 2"
    | (down) "y < of_int m" "of_int m - y < 1 / 2"
    | (tie_up) "y = of_int m + 1 / 2" "even m"
    | (tie_down) "y = of_int m - 1 / 2" "even m"
    using assms by (auto simp: abs_if split: if_splits)
  then show ?thesis
  proof cases
    case up
    then have "\<lfloor>y\<rfloor> = m" by (simp add: floor_eq_iff)
    with up show ?thesis by (simp add: round_even_def Let_def)
  next
    case down
    then have f: "\<lfloor>y\<rfloor> = m - 1" by (simp add: floor_eq_iff)
    with down show ?thesis by (simp add: round_even_def Let_def)
  next
    case tie_up
    then have "\<lfloor>y\<rfloor> = m" by (simp add: floor_eq_iff)
    with tie_up show ?thesis by (simp add: round_even_def Let_def)
  next
    case tie_down
    then have f: "\<lfloor>y\<rfloor> = m - 1" by (simp add: floor_eq_iff)
    with tie_down show ?thesis by (simp add: round_even_def Let_def)
  qed
qed

lemma f64_eqI:
  assumes "- 1022 \<le> e"
    and "2 powi e \<le> \<bar>x\<bar>" and "\<bar>x\<bar> < 2 powi (e + 1)"
    and "\<bar>x / 2 powi (e - 52) - of_int m\<bar> < 1 / 2 \<or>
         (\<bar>x / 2 powi (e - 52) - of_int m\<bar> = 1 / 2 \<and> even m)"
  shows "f64 x = of_int m * 2 powi (e - 52)"
proof -
  have p: "0 < \<bar>x\<bar>"
    using assms(2) by (rule less_le_trans [rotated]) simp
  then have nz: "x \<noteq> 0" by simp
  have u: "2 powr (real_of_int e + 1) = 2 powi (e + 1)"
    using powr_real_of_int' [of 2 "e + 1"] by simp
  have l: "2 powr real_of_int e = 2 powi e"
    using powr_real_of_int' [of 2 e] by simp
  have "\<lfloor>log 2 \<bar>x\<bar>\<rfloor> = e"
    using assms(2,3) p by (simp add: floor_log_eq_powr_iff u l)
  then have "max \<lfloor>log 2 \<bar>x\<bar>\<rfloor> (- 1022) = e" using assms(1) by simp
  then show ?thesis
    using nz round_even_eqI [OF assms(4)] by (simp add: f64_def Let_def)
qed

lemma f64_sqrt_eqI:
  assumes "- 1022 \<le> e"
    and "(2 powi e)\<^sup>2 \<le> v" and "v < (2 powi (e + 1))\<^sup>2"
    and "1 \<le> m"
    and "((of_int m - 1 / 2) * 2 powi (e - 52))\<^sup>2 < v"
    and "v < ((of_int m + 1 / 2) * 2 powi (e - 52))\<^sup>2"
  shows "f64 (sqrt v) = of_int m * 2 powi (e - 52)"
proof -
  let ?u = "2 powi (e - 52) :: real"
  have u: "0 < ?u" by simp
  have v: "0 < v" using assms(2) by (rule less_le_trans [rotated]) simp
  have lo: "2 powi e \<le> sqrt v" using assms(2) by (rule real_le_rsqrt)
  have hi: "sqrt v < 2 powi (e + 1)" using assms(3) by (intro real_less_lsqrt) simp_all
  have a: "(of_int m - 1 / 2) * ?u < sqrt v" using assms(5) by (rule real_less_rsqrt)
  have m: "0 \<le> (of_int m + 1 / 2) * ?u" using assms(4) by simp
  have b: "sqrt v < (of_int m + 1 / 2) * ?u" using m assms(6) by (intro real_less_lsqrt) simp_all
  have "of_int m - 1 / 2 < sqrt v / ?u" using a u by (simp add: pos_less_divide_eq)
  moreover have "sqrt v / ?u < of_int m + 1 / 2" using b u by (simp add: pos_divide_less_eq)
  ultimately have r: "\<bar>sqrt v / ?u - of_int m\<bar> < 1 / 2" by linarith
  have s: "\<bar>sqrt v\<bar> = sqrt v" using v by simp
  show ?thesis
    by (rule f64_eqI [OF assms(1)]) (simp_all only: s lo hi r simp_thms)
qed

lemma pairwise_sum_short: "length a < 8 \<Longrightarrow> pairwise_sum a = foldl f64_add 0 a"
  by (subst pairwise_sum.simps) simp

subsection \<open>Constant series\<close>

lemma np_median_replicate:
  assumes "0 < n"
  shows "np_median (replicate n c) = c"
proof -
  have s: "sort (replicate n c) = replicate n c"
    by (rule sorted_sort_id) (simp add: sorted_replicate)
  have i1: "n div 2 < n" using assms by simp
  have i2: "n div 2 - 1 < n" using assms by simp
  show ?thesis
    using i1 i2 by (simp add: np_median_def s Let_def)
qed

lemma mad_replicate:
  assumes "2 \<le> n" and "0 < threshold"
  shows "detect_anomalies_mad (replicate n c) threshold = replicate n False"
proof -
  have n: "0 < n" using assms by simp
  show ?thesis
    using assms
    by (simp add: detect_anomalies_mad_def Let_def np_median_replicate [OF n])
qed

text \<open>
  Claim C8, as amended. For every constant series (all values equal) of at least two
  elements and every threshold greater than 0, the MAD detector returns all-false: the
  median is the common value, every deviation and the MAD are 0, every score is 0 over
  the stabilised denominator, and 0 does not exceed a positive threshold. (Nothing is
  claimed of the Z-Score detector for every positive threshold.)
\<close>

theorem mad_constant_series_all_false:
  assumes "2 \<le> length series" and "\<forall>x\<in>set series. x = c" and "0 < threshold"
  shows "detect_anomalies_mad series threshold = replicate (length series) False"
proof -
  have "replicate (length series) c = series"
    using assms(2) by (simp add: replicate_length_same)
  then show ?thesis
    using mad_replicate [OF assms(1,3), of c] by simp
qed

theorem mad_constant_series_all_false_witness:
  "2 \<le> length [7, 7, 7 :: real] \<and> set [7, 7, 7 :: real] = {7} \<and> (0 :: real) < 1 \<and>
   detect_anomalies_mad [7, 7, 7] 1 = [False, False, False]"
proof -
  have h1: "2 \<le> length [7, 7, 7 :: real]" by simp
  have h2: "\<forall>x\<in>set [7, 7, 7 :: real]. x = 7" by simp
  have h3: "(0 :: real) < 1" by simp
  show ?thesis
    using h1 h2 h3 mad_constant_series_all_false [OF h1 h2 h3] by (simp add: eval_nat_numeral)
qed

text \<open>
  The claim as stated fails for the Z-Score detector: on the constant series
  \<^verbatim>\<open>[0.1, 0.1, 0.1]\<close> the float64 sum is 0.30000000000000004 and the mean is
  0.10000000000000002, so every deviation is minus 2 to the power -56, the standard
  deviation is 2 to the power -56 and every score is about -1.39e-8. At the positive
  threshold \<^verbatim>\<open>1e-9\<close> every element is flagged.
\<close>

theorem constant_series_flagged_counterexample:
  "0 < f64 (1 / 10 ^ 9) \<and>
   detect_anomalies_zscore_f64 [f64 (1 / 10), f64 (1 / 10), f64 (1 / 10)] (f64 (1 / 10 ^ 9))
   = [True, True, True]"
proof -
  define a1 :: real where "a1 = 3602879701896397 / 36028797018963968"
  define a2 :: real where "a2 = 4835703278458517 / 4835703278458516698824704"
  define a3 :: real where "a3 = 3602879701896397 / 18014398509481984"
  define a4 :: real where "a4 = 1351079888211149 / 4503599627370496"
  define a5 :: real where "a5 = 7205759403792795 / 72057594037927936"
  define a6 :: real where "a6 = - (1 / 72057594037927936)"
  define a7 :: real where "a7 = 1 / 5192296858534827628530496329220096"
  define a8 :: real where "a8 = 1 / 2596148429267413814265248164610048"
  define a9 :: real where "a9 = 3 / 5192296858534827628530496329220096"
  define a10 :: real where "a10 = 1 / 72057594037927936"
  define a11 :: real where "a11 = 4835703345567381 / 4835703278458516698824704"
  define a12 :: real where "a12 = - (8388607883584679 / 604462909807314587353088)"
  have as1: "f64 (1 / 10) = a1"
  proof -
    have "f64 (1 / 10) = of_int 7205759403792794 * 2 powi (- 4 - 52)"
      by (rule f64_eqI) (simp_all)
    also have "\<dots> = a1"
      by (simp add: a1_def)
    finally show ?thesis .
  qed
  have as2: "f64 (1 / 10 ^ 9) = a2"
  proof -
    have "f64 (1 / 10 ^ 9) = of_int 4835703278458517 * 2 powi (- 30 - 52)"
      by (rule f64_eqI) (simp_all)
    also have "\<dots> = a2"
      by (simp add: a2_def)
    finally show ?thesis .
  qed
  have as3: "eps_f64 = a2"
  proof -
    have "f64 (1 / 10 ^ 9) = of_int 4835703278458517 * 2 powi (- 30 - 52)"
      by (rule f64_eqI) (simp_all)
    also have "\<dots> = a2"
      by (simp add: a2_def)
    finally show ?thesis by (simp only: eps_f64_def)
  qed
  have as4: "f64_add 0 a1 = a1"
  proof -
    have "f64 (0 + a1) = of_int 7205759403792794 * 2 powi (- 4 - 52)"
      by (rule f64_eqI) (simp_all add: a1_def)
    also have "\<dots> = a1"
      by (simp add: a1_def)
    finally show ?thesis by (simp only: f64_add_def)
  qed
  have as5: "f64_add a1 a1 = a3"
  proof -
    have "f64 (a1 + a1) = of_int 7205759403792794 * 2 powi (- 3 - 52)"
      by (rule f64_eqI) (simp_all add: a1_def)
    also have "\<dots> = a3"
      by (simp add: a3_def)
    finally show ?thesis by (simp only: f64_add_def)
  qed
  have as6: "f64_add a3 a1 = a4"
  proof -
    have "f64 (a3 + a1) = of_int 5404319552844596 * 2 powi (- 2 - 52)"
      by (rule f64_eqI) (simp_all add: a1_def a3_def)
    also have "\<dots> = a4"
      by (simp add: a4_def)
    finally show ?thesis by (simp only: f64_add_def)
  qed
  have as7: "f64_add 0 a4 = a4"
  proof -
    have "f64 (0 + a4) = of_int 5404319552844596 * 2 powi (- 2 - 52)"
      by (rule f64_eqI) (simp_all add: a4_def)
    also have "\<dots> = a4"
      by (simp add: a4_def)
    finally show ?thesis by (simp only: f64_add_def)
  qed
  have as8: "f64_div a4 3 = a5"
  proof -
    have "f64 (a4 / 3) = of_int 7205759403792795 * 2 powi (- 4 - 52)"
      by (rule f64_eqI) (simp_all add: a4_def)
    also have "\<dots> = a5"
      by (simp add: a5_def)
    finally show ?thesis by (simp only: f64_div_def)
  qed
  have as9: "f64_sub a1 a5 = a6"
  proof -
    have "f64 (a1 - a5) = of_int (- 4503599627370496) * 2 powi (- 56 - 52)"
      by (rule f64_eqI) (simp_all add: a1_def a5_def)
    also have "\<dots> = a6"
      by (simp add: a6_def)
    finally show ?thesis by (simp only: f64_sub_def)
  qed
  have as10: "f64_mul a6 a6 = a7"
  proof -
    have "f64 (a6 * a6) = of_int 4503599627370496 * 2 powi (- 112 - 52)"
      by (rule f64_eqI) (simp_all add: a6_def)
    also have "\<dots> = a7"
      by (simp add: a7_def)
    finally show ?thesis by (simp only: f64_mul_def)
  qed
  have as11: "f64_add 0 a7 = a7"
  proof -
    have "f64 (0 + a7) = of_int 4503599627370496 * 2 powi (- 112 - 52)"
      by (rule f64_eqI) (simp_all add: a7_def)
    also have "\<dots> = a7"
      by (simp add: a7_def)
    finally show ?thesis by (simp only: f64_add_def)
  qed
  have as12: "f64_add a7 a7 = a8"
  proof -
    have "f64 (a7 + a7) = of_int 4503599627370496 * 2 powi (- 111 - 52)"
      by (rule f64_eqI) (simp_all add: a7_def)
    also have "\<dots> = a8"
      by (simp add: a8_def)
    finally show ?thesis by (simp only: f64_add_def)
  qed
  have as13: "f64_add a8 a7 = a9"
  proof -
    have "f64 (a8 + a7) = of_int 6755399441055744 * 2 powi (- 111 - 52)"
      by (rule f64_eqI) (simp_all add: a7_def a8_def)
    also have "\<dots> = a9"
      by (simp add: a9_def)
    finally show ?thesis by (simp only: f64_add_def)
  qed
  have as14: "f64_add 0 a9 = a9"
  proof -
    have "f64 (0 + a9) = of_int 6755399441055744 * 2 powi (- 111 - 52)"
      by (rule f64_eqI) (simp_all add: a9_def)
    also have "\<dots> = a9"
      by (simp add: a9_def)
    finally show ?thesis by (simp only: f64_add_def)
  qed
  have as15: "f64_div a9 3 = a7"
  proof -
    have "f64 (a9 / 3) = of_int 4503599627370496 * 2 powi (- 112 - 52)"
      by (rule f64_eqI) (simp_all add: a9_def)
    also have "\<dots> = a7"
      by (simp add: a7_def)
    finally show ?thesis by (simp only: f64_div_def)
  qed
  have as16: "f64_sqrt a7 = a10"
  proof -
    have "f64 (sqrt a7) = of_int 4503599627370496 * 2 powi (- 56 - 52)"
      by (rule f64_sqrt_eqI) (simp_all add: a7_def power2_eq_square)
    also have "\<dots> = a10"
      by (simp add: a10_def)
    finally show ?thesis by (simp only: f64_sqrt_def)
  qed
  have as17: "f64_add a10 a2 = a11"
  proof -
    have "f64 (a10 + a2) = of_int 4835703345567381 * 2 powi (- 30 - 52)"
      by (rule f64_eqI) (simp_all add: a10_def a2_def)
    also have "\<dots> = a11"
      by (simp add: a11_def)
    finally show ?thesis by (simp only: f64_add_def)
  qed
  have as18: "f64_div a6 a11 = a12"
  proof -
    have "f64 (a6 / a11) = of_int (- 8388607883584679) * 2 powi (- 27 - 52)"
      by (rule f64_eqI) (simp_all add: a11_def a6_def)
    also have "\<dots> = a12"
      by (simp add: a12_def)
    finally show ?thesis by (simp only: f64_div_def)
  qed
  have ac1: "a2 < \<bar>a12\<bar>"
    by (simp add: a2_def a12_def)
  have r: "detect_anomalies_zscore_f64 [a1, a1, a1] a2 = [True, True, True]"
    by (simp add: detect_anomalies_zscore_f64_def np_mean_f64_def np_std_f64_def
        np_sum_f64_def pairwise_sum_short Let_def
        as1 as2 as3 as4 as5 as6 as7 as8 as9 as10 as11 as12
        as13 as14 as15 as16 as17 as18 ac1)
  have pos: "0 < a2" by (simp add: a2_def)
  show ?thesis
    unfolding as1 as2 using pos r by (rule conjI)
qed

subsection \<open>Reordering the series\<close>

lemma mset_permute_by:
  assumes "bij_betw p {..<length xs} {..<length xs}"
  shows "mset (permute_by p xs) = mset xs"
proof -
  have inj: "inj_on p {0..<length xs}"
    using assms by (simp add: bij_betw_def atLeast0LessThan)
  have img: "p ` {0..<length xs} = {0..<length xs}"
    using assms by (simp add: bij_betw_def atLeast0LessThan)
  have "mset (permute_by p xs) = image_mset (\<lambda>i. xs ! i) (image_mset p (mset [0..<length xs]))"
    by (simp add: permute_by_def multiset.map_comp comp_def)
  also have "image_mset p (mset [0..<length xs]) = mset [0..<length xs]"
    by (simp add: image_mset_mset_set [OF inj] img)
  also have "image_mset (\<lambda>i. xs ! i) (mset [0..<length xs]) = mset (map (\<lambda>i. xs ! i) [0..<length xs])"
    by simp
  also have "map (\<lambda>i. xs ! i) [0..<length xs] = xs"
    by (rule map_nth)
  finally show ?thesis .
qed

lemma length_permute_by: "length (permute_by p xs) = length xs"
  by (simp add: permute_by_def)

lemma permute_by_map:
  assumes "\<And>i. i < length xs \<Longrightarrow> p i < length xs"
  shows "permute_by p (map g xs) = map g (permute_by p xs)"
  using assms by (simp add: permute_by_def)

lemma sort_mset:
  assumes "mset ys = mset xs"
  shows "sort ys = sort (xs :: real list)"
proof (rule properties_for_sort)
  show "mset (sort xs) = mset ys" by (simp only: mset_sort assms)
  show "sorted (sort xs)" by (rule sorted_sort)
qed

lemma np_median_mset:
  assumes "mset ys = mset xs"
  shows "np_median ys = np_median xs"
  unfolding np_median_def sort_mset [OF assms] ..

lemma mad_as_map:
  "detect_anomalies_mad xs t =
     map (\<lambda>x. 2 \<le> length xs \<and>
          \<bar>0.6745 * (x - np_median xs) / (np_median (map (\<lambda>x. \<bar>x - np_median xs\<bar>) xs) + eps)\<bar> > t) xs"
  by (cases "length xs < 2") (simp_all add: detect_anomalies_mad_def Let_def comp_def map_replicate_const)

text \<open>
  Claim C7, as amended. For every series of at least two elements, every threshold and
  every permutation \<open>p\<close> of the indices, the MAD detector applied to the series reordered
  by \<open>p\<close> yields its result on the original series reordered by the same \<open>p\<close>: the median
  and the MAD depend on the values only, not on their order. (Nothing is claimed of the
  Z-Score detector, whose mean and standard deviation are float64 sums.)
\<close>

theorem mad_permutation_equivariant:
  assumes "2 \<le> length series"
    and "bij_betw p {..<length series} {..<length series}"
  shows "detect_anomalies_mad (permute_by p series) threshold
         = permute_by p (detect_anomalies_mad series threshold)"
proof -
  let ?ys = "permute_by p series"
  have m: "mset ?ys = mset series" by (rule mset_permute_by [OF assms(2)])
  have l: "length ?ys = length series" by (rule length_permute_by)
  have r: "\<And>i. i < length series \<Longrightarrow> p i < length series"
    using assms(2) by (auto simp: bij_betw_def)
  have d: "mset (map (\<lambda>x. \<bar>x - np_median series\<bar>) ?ys)
           = mset (map (\<lambda>x. \<bar>x - np_median series\<bar>) series)"
    using m by simp
  show ?thesis
    unfolding mad_as_map l np_median_mset [OF m] np_median_mset [OF d]
    by (rule permute_by_map [OF r, symmetric])
qed

lemma mad_example:
  "detect_anomalies_mad [10, 10, 10, 10, 100] (7 / 2) = [False, False, False, False, True]"
  by (simp add: detect_anomalies_mad_def np_median_def eps_def)

lemma bij_betw_reverse_5: "bij_betw (\<lambda>i. 4 - i) {..<5 :: nat} {..<5}"
  by (rule bij_betw_byWitness [where f' = "\<lambda>i. 4 - i"]) auto

theorem mad_permutation_equivariant_witness:
  "2 \<le> length [10, 10, 10, 10, 100 :: real] \<and>
   bij_betw (\<lambda>i. 4 - i) {..<length [10, 10, 10, 10, 100 :: real]}
     {..<length [10, 10, 10, 10, 100 :: real]} \<and>
   permute_by (\<lambda>i. 4 - i) [10, 10, 10, 10, 100 :: real] = [100, 10, 10, 10, 10] \<and>
   detect_anomalies_mad [100, 10, 10, 10, 10] (7 / 2) = [True, False, False, False, False]"
proof -
  let ?s = "[10, 10, 10, 10, 100 :: real]"
  have h1: "2 \<le> length ?s" by simp
  have h2: "bij_betw (\<lambda>i. 4 - i) {..<length ?s} {..<length ?s}"
  proof -
    have "length ?s = 5" by simp
    then show ?thesis using bij_betw_reverse_5 by (simp only:)
  qed
  have upt5: "[0..<5] = [0, 1, 2, 3, 4]" by (simp add: upt_rec)
  have p: "permute_by (\<lambda>i. 4 - i) ?s = [100, 10, 10, 10, 10]"
    by (simp add: permute_by_def upt5)
  have q: "permute_by (\<lambda>i. 4 - i) [False, False, False, False, True]
           = [True, False, False, False, False]"
    by (simp add: permute_by_def upt5)
  have m: "detect_anomalies_mad [100, 10, 10, 10, 10] (7 / 2) = [True, False, False, False, False]"
    using mad_permutation_equivariant [OF h1 h2, of "7 / 2"]
    unfolding p mad_example q .
  from h1 h2 p m show ?thesis by (intro conjI)
qed

text \<open>
  The claim as stated fails for the Z-Score detector. On \<^verbatim>\<open>[0.9, 0.3, 8.4]\<close> the float64
  mean is 3.1999999999999997 and the score of 0.9 is -0.6241341570792789; on the
  reordered \<^verbatim>\<open>[0.9, 8.4, 0.3]\<close> the mean is 3.2000000000000006 and the score of 0.9 is
  -0.6241341570792792. At the threshold \<^verbatim>\<open>0.6241341570792789\<close> the element 0.9 is not
  flagged in the first order and is flagged in the second.
\<close>

theorem zscore_reordering_counterexample:
  "bij_betw (\<lambda>i. if i = 1 then 2 else if i = 2 then 1 else i) {..<length [f64 (9 / 10), f64 (3 / 10), f64 (84 / 10)]}
     {..<length [f64 (9 / 10), f64 (3 / 10), f64 (84 / 10)]} \<and>
   detect_anomalies_zscore_f64 [f64 (9 / 10), f64 (3 / 10), f64 (84 / 10)]
     (f64 (6241341570792789 / 10 ^ 16)) = [False, True, True] \<and>
   detect_anomalies_zscore_f64
     (permute_by (\<lambda>i. if i = 1 then 2 else if i = 2 then 1 else i) [f64 (9 / 10), f64 (3 / 10), f64 (84 / 10)])
     (f64 (6241341570792789 / 10 ^ 16)) = [True, True, True] \<and>
   detect_anomalies_zscore_f64
     (permute_by (\<lambda>i. if i = 1 then 2 else if i = 2 then 1 else i) [f64 (9 / 10), f64 (3 / 10), f64 (84 / 10)])
     (f64 (6241341570792789 / 10 ^ 16))
   \<noteq> permute_by (\<lambda>i. if i = 1 then 2 else if i = 2 then 1 else i)
       (detect_anomalies_zscore_f64 [f64 (9 / 10), f64 (3 / 10), f64 (84 / 10)]
          (f64 (6241341570792789 / 10 ^ 16)))"
proof -
  define b1 :: real where "b1 = 8106479329266893 / 9007199254740992"
  define b2 :: real where "b2 = 5404319552844595 / 18014398509481984"
  define b3 :: real where "b3 = 4728779608739021 / 562949953421312"
  define b4 :: real where "b4 = 2810850357251439 / 4503599627370496"
  define b5 :: real where "b5 = 4835703278458517 / 4835703278458516698824704"
  define b6 :: real where "b6 = 5404319552844595 / 4503599627370496"
  define b7 :: real where "b7 = 5404319552844595 / 562949953421312"
  define b8 :: real where "b8 = 7205759403792793 / 2251799813685248"
  define b9 :: real where "b9 = - (2589569785738035 / 1125899906842624)"
  define b10 :: real where "b10 = - (6530219459687219 / 2251799813685248)"
  define b11 :: real where "b11 = 2927339757790823 / 562949953421312"
  define b12 :: real where "b12 = 744501313399685 / 140737488355328"
  define b13 :: real where "b13 = 2367204554136617 / 281474976710656"
  define b14 :: real where "b14 = 7611083370256141 / 281474976710656"
  define b15 :: real where "b15 = 3856207180935987 / 281474976710656"
  define b16 :: real where "b16 = 179176414862377 / 4398046511104"
  define b17 :: real where "b17 = 7644860367461419 / 562949953421312"
  define b18 :: real where "b18 = 8298119100398441 / 2251799813685248"
  define b19 :: real where "b19 = 8298119102650241 / 2251799813685248"
  define b20 :: real where "b20 = - (2810850357251439 / 4503599627370496)"
  define b21 :: real where "b21 = - (3544115667838771 / 4503599627370496)"
  define b22 :: real where "b22 = 6354966025090211 / 4503599627370496"
  define b23 :: real where "b23 = 2617717283409101 / 281474976710656"
  define b24 :: real where "b24 = 1351079888211149 / 140737488355328"
  define b25 :: real where "b25 = 7205759403792795 / 2251799813685248"
  define b26 :: real where "b26 = - (647392446434509 / 281474976710656)"
  define b27 :: real where "b27 = 1463669878895411 / 281474976710656"
  define b28 :: real where "b28 = - (6530219459687221 / 2251799813685248)"
  define b29 :: real where "b29 = 5956010507197485 / 1125899906842624"
  define b30 :: real where "b30 = 951385421282017 / 35184372088832"
  define b31 :: real where "b31 = 4734409108273237 / 562949953421312"
  define b32 :: real where "b32 = 2275021499263877 / 70368744177664"
  define b33 :: real where "b33 = 5733645275596063 / 140737488355328"
  define b34 :: real where "b34 = 7644860367461417 / 562949953421312"
  define b35 :: real where "b35 = 1037264887549805 / 281474976710656"
  define b36 :: real where "b36 = 64829055489455 / 17592186044416"
  define b37 :: real where "b37 = - (5621700714502881 / 9007199254740992)"
  define b38 :: real where "b38 = 3177483012545105 / 2251799813685248"
  define b39 :: real where "b39 = - (7088231335677545 / 9007199254740992)"
  have bs1: "f64 (9 / 10) = b1"
  proof -
    have "f64 (9 / 10) = of_int 8106479329266893 * 2 powi (- 1 - 52)"
      by (rule f64_eqI) (simp_all)
    also have "\<dots> = b1"
      by (simp add: b1_def)
    finally show ?thesis .
  qed
  have bs2: "f64 (3 / 10) = b2"
  proof -
    have "f64 (3 / 10) = of_int 5404319552844595 * 2 powi (- 2 - 52)"
      by (rule f64_eqI) (simp_all)
    also have "\<dots> = b2"
      by (simp add: b2_def)
    finally show ?thesis .
  qed
  have bs3: "f64 (84 / 10) = b3"
  proof -
    have "f64 (84 / 10) = of_int 4728779608739021 * 2 powi (3 - 52)"
      by (rule f64_eqI) (simp_all)
    also have "\<dots> = b3"
      by (simp add: b3_def)
    finally show ?thesis .
  qed
  have bs4: "f64 (6241341570792789 / 10 ^ 16) = b4"
  proof -
    have "f64 (6241341570792789 / 10 ^ 16) = of_int 5621700714502878 * 2 powi (- 1 - 52)"
      by (rule f64_eqI) (simp_all)
    also have "\<dots> = b4"
      by (simp add: b4_def)
    finally show ?thesis .
  qed
  have bs5: "eps_f64 = b5"
  proof -
    have "f64 (1 / 10 ^ 9) = of_int 4835703278458517 * 2 powi (- 30 - 52)"
      by (rule f64_eqI) (simp_all)
    also have "\<dots> = b5"
      by (simp add: b5_def)
    finally show ?thesis by (simp only: eps_f64_def)
  qed
  have bs6: "f64_add 0 b1 = b1"
  proof -
    have "f64 (0 + b1) = of_int 8106479329266893 * 2 powi (- 1 - 52)"
      by (rule f64_eqI) (simp_all add: b1_def)
    also have "\<dots> = b1"
      by (simp add: b1_def)
    finally show ?thesis by (simp only: f64_add_def)
  qed
  have bs7: "f64_add b1 b2 = b6"
  proof -
    have "f64 (b1 + b2) = of_int 5404319552844595 * 2 powi (0 - 52)"
      by (rule f64_eqI) (simp_all add: b1_def b2_def)
    also have "\<dots> = b6"
      by (simp add: b6_def)
    finally show ?thesis by (simp only: f64_add_def)
  qed
  have bs8: "f64_add b6 b3 = b7"
  proof -
    have "f64 (b6 + b3) = of_int 5404319552844595 * 2 powi (3 - 52)"
      by (rule f64_eqI) (simp_all add: b3_def b6_def)
    also have "\<dots> = b7"
      by (simp add: b7_def)
    finally show ?thesis by (simp only: f64_add_def)
  qed
  have bs9: "f64_add 0 b7 = b7"
  proof -
    have "f64 (0 + b7) = of_int 5404319552844595 * 2 powi (3 - 52)"
      by (rule f64_eqI) (simp_all add: b7_def)
    also have "\<dots> = b7"
      by (simp add: b7_def)
    finally show ?thesis by (simp only: f64_add_def)
  qed
  have bs10: "f64_div b7 3 = b8"
  proof -
    have "f64 (b7 / 3) = of_int 7205759403792793 * 2 powi (1 - 52)"
      by (rule f64_eqI) (simp_all add: b7_def)
    also have "\<dots> = b8"
      by (simp add: b8_def)
    finally show ?thesis by (simp only: f64_div_def)
  qed
  have bs11: "f64_sub b1 b8 = b9"
  proof -
    have "f64 (b1 - b8) = of_int (- 5179139571476070) * 2 powi (1 - 52)"
      by (rule f64_eqI) (simp_all add: b1_def b8_def)
    also have "\<dots> = b9"
      by (simp add: b9_def)
    finally show ?thesis by (simp only: f64_sub_def)
  qed
  have bs12: "f64_sub b2 b8 = b10"
  proof -
    have "f64 (b2 - b8) = of_int (- 6530219459687219) * 2 powi (1 - 52)"
      by (rule f64_eqI) (simp_all add: b2_def b8_def)
    also have "\<dots> = b10"
      by (simp add: b10_def)
    finally show ?thesis by (simp only: f64_sub_def)
  qed
  have bs13: "f64_sub b3 b8 = b11"
  proof -
    have "f64 (b3 - b8) = of_int 5854679515581646 * 2 powi (2 - 52)"
      by (rule f64_eqI) (simp_all add: b3_def b8_def)
    also have "\<dots> = b11"
      by (simp add: b11_def)
    finally show ?thesis by (simp only: f64_sub_def)
  qed
  have bs14: "f64_mul b9 b9 = b12"
  proof -
    have "f64 (b9 * b9) = of_int 5956010507197480 * 2 powi (2 - 52)"
      by (rule f64_eqI) (simp_all add: b9_def)
    also have "\<dots> = b12"
      by (simp add: b12_def)
    finally show ?thesis by (simp only: f64_mul_def)
  qed
  have bs15: "f64_mul b10 b10 = b13"
  proof -
    have "f64 (b10 * b10) = of_int 4734409108273234 * 2 powi (3 - 52)"
      by (rule f64_eqI) (simp_all add: b10_def)
    also have "\<dots> = b13"
      by (simp add: b13_def)
    finally show ?thesis by (simp only: f64_mul_def)
  qed
  have bs16: "f64_mul b11 b11 = b14"
  proof -
    have "f64 (b11 * b11) = of_int 7611083370256141 * 2 powi (4 - 52)"
      by (rule f64_eqI) (simp_all add: b11_def)
    also have "\<dots> = b14"
      by (simp add: b14_def)
    finally show ?thesis by (simp only: f64_mul_def)
  qed
  have bs17: "f64_add 0 b12 = b12"
  proof -
    have "f64 (0 + b12) = of_int 5956010507197480 * 2 powi (2 - 52)"
      by (rule f64_eqI) (simp_all add: b12_def)
    also have "\<dots> = b12"
      by (simp add: b12_def)
    finally show ?thesis by (simp only: f64_add_def)
  qed
  have bs18: "f64_add b12 b13 = b15"
  proof -
    have "f64 (b12 + b13) = of_int 7712414361871974 * 2 powi (3 - 52)"
      by (rule f64_eqI) (simp_all add: b12_def b13_def)
    also have "\<dots> = b15"
      by (simp add: b15_def)
    finally show ?thesis by (simp only: f64_add_def)
  qed
  have bs19: "f64_add b15 b14 = b16"
  proof -
    have "f64 (b15 + b14) = of_int 5733645275596064 * 2 powi (5 - 52)"
      by (rule f64_eqI) (simp_all add: b14_def b15_def)
    also have "\<dots> = b16"
      by (simp add: b16_def)
    finally show ?thesis by (simp only: f64_add_def)
  qed
  have bs20: "f64_add 0 b16 = b16"
  proof -
    have "f64 (0 + b16) = of_int 5733645275596064 * 2 powi (5 - 52)"
      by (rule f64_eqI) (simp_all add: b16_def)
    also have "\<dots> = b16"
      by (simp add: b16_def)
    finally show ?thesis by (simp only: f64_add_def)
  qed
  have bs21: "f64_div b16 3 = b17"
  proof -
    have "f64 (b16 / 3) = of_int 7644860367461419 * 2 powi (3 - 52)"
      by (rule f64_eqI) (simp_all add: b16_def)
    also have "\<dots> = b17"
      by (simp add: b17_def)
    finally show ?thesis by (simp only: f64_div_def)
  qed
  have bs22: "f64_sqrt b17 = b18"
  proof -
    have "f64 (sqrt b17) = of_int 8298119100398441 * 2 powi (1 - 52)"
      by (rule f64_sqrt_eqI) (simp_all add: b17_def power2_eq_square)
    also have "\<dots> = b18"
      by (simp add: b18_def)
    finally show ?thesis by (simp only: f64_sqrt_def)
  qed
  have bs23: "f64_add b18 b5 = b19"
  proof -
    have "f64 (b18 + b5) = of_int 8298119102650241 * 2 powi (1 - 52)"
      by (rule f64_eqI) (simp_all add: b18_def b5_def)
    also have "\<dots> = b19"
      by (simp add: b19_def)
    finally show ?thesis by (simp only: f64_add_def)
  qed
  have bs24: "f64_div b9 b19 = b20"
  proof -
    have "f64 (b9 / b19) = of_int (- 5621700714502878) * 2 powi (- 1 - 52)"
      by (rule f64_eqI) (simp_all add: b19_def b9_def)
    also have "\<dots> = b20"
      by (simp add: b20_def)
    finally show ?thesis by (simp only: f64_div_def)
  qed
  have bs25: "f64_div b10 b19 = b21"
  proof -
    have "f64 (b10 / b19) = of_int (- 7088231335677542) * 2 powi (- 1 - 52)"
      by (rule f64_eqI) (simp_all add: b10_def b19_def)
    also have "\<dots> = b21"
      by (simp add: b21_def)
    finally show ?thesis by (simp only: f64_div_def)
  qed
  have bs26: "f64_div b11 b19 = b22"
  proof -
    have "f64 (b11 / b19) = of_int 6354966025090211 * 2 powi (0 - 52)"
      by (rule f64_eqI) (simp_all add: b11_def b19_def)
    also have "\<dots> = b22"
      by (simp add: b22_def)
    finally show ?thesis by (simp only: f64_div_def)
  qed
  have bc1: "\<not> b4 < \<bar>b20\<bar>"
    by (simp add: b4_def b20_def)
  have bc2: "b4 < \<bar>b21\<bar>"
    by (simp add: b4_def b21_def)
  have bc3: "b4 < \<bar>b22\<bar>"
    by (simp add: b4_def b22_def)
  have bs30: "f64_add b1 b3 = b23"
  proof -
    have "f64 (b1 + b3) = of_int 5235434566818202 * 2 powi (3 - 52)"
      by (rule f64_eqI) (simp_all add: b1_def b3_def)
    also have "\<dots> = b23"
      by (simp add: b23_def)
    finally show ?thesis by (simp only: f64_add_def)
  qed
  have bs31: "f64_add b23 b2 = b24"
  proof -
    have "f64 (b23 + b2) = of_int 5404319552844596 * 2 powi (3 - 52)"
      by (rule f64_eqI) (simp_all add: b23_def b2_def)
    also have "\<dots> = b24"
      by (simp add: b24_def)
    finally show ?thesis by (simp only: f64_add_def)
  qed
  have bs32: "f64_add 0 b24 = b24"
  proof -
    have "f64 (0 + b24) = of_int 5404319552844596 * 2 powi (3 - 52)"
      by (rule f64_eqI) (simp_all add: b24_def)
    also have "\<dots> = b24"
      by (simp add: b24_def)
    finally show ?thesis by (simp only: f64_add_def)
  qed
  have bs33: "f64_div b24 3 = b25"
  proof -
    have "f64 (b24 / 3) = of_int 7205759403792795 * 2 powi (1 - 52)"
      by (rule f64_eqI) (simp_all add: b24_def)
    also have "\<dots> = b25"
      by (simp add: b25_def)
    finally show ?thesis by (simp only: f64_div_def)
  qed
  have bs34: "f64_sub b1 b25 = b26"
  proof -
    have "f64 (b1 - b25) = of_int (- 5179139571476072) * 2 powi (1 - 52)"
      by (rule f64_eqI) (simp_all add: b1_def b25_def)
    also have "\<dots> = b26"
      by (simp add: b26_def)
    finally show ?thesis by (simp only: f64_sub_def)
  qed
  have bs35: "f64_sub b3 b25 = b27"
  proof -
    have "f64 (b3 - b25) = of_int 5854679515581644 * 2 powi (2 - 52)"
      by (rule f64_eqI) (simp_all add: b25_def b3_def)
    also have "\<dots> = b27"
      by (simp add: b27_def)
    finally show ?thesis by (simp only: f64_sub_def)
  qed
  have bs36: "f64_sub b2 b25 = b28"
  proof -
    have "f64 (b2 - b25) = of_int (- 6530219459687221) * 2 powi (1 - 52)"
      by (rule f64_eqI) (simp_all add: b25_def b2_def)
    also have "\<dots> = b28"
      by (simp add: b28_def)
    finally show ?thesis by (simp only: f64_sub_def)
  qed
  have bs37: "f64_mul b26 b26 = b29"
  proof -
    have "f64 (b26 * b26) = of_int 5956010507197485 * 2 powi (2 - 52)"
      by (rule f64_eqI) (simp_all add: b26_def)
    also have "\<dots> = b29"
      by (simp add: b29_def)
    finally show ?thesis by (simp only: f64_mul_def)
  qed
  have bs38: "f64_mul b27 b27 = b30"
  proof -
    have "f64 (b27 * b27) = of_int 7611083370256136 * 2 powi (4 - 52)"
      by (rule f64_eqI) (simp_all add: b27_def)
    also have "\<dots> = b30"
      by (simp add: b30_def)
    finally show ?thesis by (simp only: f64_mul_def)
  qed
  have bs39: "f64_mul b28 b28 = b31"
  proof -
    have "f64 (b28 * b28) = of_int 4734409108273237 * 2 powi (3 - 52)"
      by (rule f64_eqI) (simp_all add: b28_def)
    also have "\<dots> = b31"
      by (simp add: b31_def)
    finally show ?thesis by (simp only: f64_mul_def)
  qed
  have bs40: "f64_add 0 b29 = b29"
  proof -
    have "f64 (0 + b29) = of_int 5956010507197485 * 2 powi (2 - 52)"
      by (rule f64_eqI) (simp_all add: b29_def)
    also have "\<dots> = b29"
      by (simp add: b29_def)
    finally show ?thesis by (simp only: f64_add_def)
  qed
  have bs41: "f64_add b29 b30 = b32"
  proof -
    have "f64 (b29 + b30) = of_int 4550042998527754 * 2 powi (5 - 52)"
      by (rule f64_eqI) (simp_all add: b29_def b30_def)
    also have "\<dots> = b32"
      by (simp add: b32_def)
    finally show ?thesis by (simp only: f64_add_def)
  qed
  have bs42: "f64_add b32 b31 = b33"
  proof -
    have "f64 (b32 + b31) = of_int 5733645275596063 * 2 powi (5 - 52)"
      by (rule f64_eqI) (simp_all add: b31_def b32_def)
    also have "\<dots> = b33"
      by (simp add: b33_def)
    finally show ?thesis by (simp only: f64_add_def)
  qed
  have bs43: "f64_add 0 b33 = b33"
  proof -
    have "f64 (0 + b33) = of_int 5733645275596063 * 2 powi (5 - 52)"
      by (rule f64_eqI) (simp_all add: b33_def)
    also have "\<dots> = b33"
      by (simp add: b33_def)
    finally show ?thesis by (simp only: f64_add_def)
  qed
  have bs44: "f64_div b33 3 = b34"
  proof -
    have "f64 (b33 / 3) = of_int 7644860367461417 * 2 powi (3 - 52)"
      by (rule f64_eqI) (simp_all add: b33_def)
    also have "\<dots> = b34"
      by (simp add: b34_def)
    finally show ?thesis by (simp only: f64_div_def)
  qed
  have bs45: "f64_sqrt b34 = b35"
  proof -
    have "f64 (sqrt b34) = of_int 8298119100398440 * 2 powi (1 - 52)"
      by (rule f64_sqrt_eqI) (simp_all add: b34_def power2_eq_square)
    also have "\<dots> = b35"
      by (simp add: b35_def)
    finally show ?thesis by (simp only: f64_sqrt_def)
  qed
  have bs46: "f64_add b35 b5 = b36"
  proof -
    have "f64 (b35 + b5) = of_int 8298119102650240 * 2 powi (1 - 52)"
      by (rule f64_eqI) (simp_all add: b35_def b5_def)
    also have "\<dots> = b36"
      by (simp add: b36_def)
    finally show ?thesis by (simp only: f64_add_def)
  qed
  have bs47: "f64_div b26 b36 = b37"
  proof -
    have "f64 (b26 / b36) = of_int (- 5621700714502881) * 2 powi (- 1 - 52)"
      by (rule f64_eqI) (simp_all add: b26_def b36_def)
    also have "\<dots> = b37"
      by (simp add: b37_def)
    finally show ?thesis by (simp only: f64_div_def)
  qed
  have bs48: "f64_div b27 b36 = b38"
  proof -
    have "f64 (b27 / b36) = of_int 6354966025090210 * 2 powi (0 - 52)"
      by (rule f64_eqI) (simp_all add: b27_def b36_def)
    also have "\<dots> = b38"
      by (simp add: b38_def)
    finally show ?thesis by (simp only: f64_div_def)
  qed
  have bs49: "f64_div b28 b36 = b39"
  proof -
    have "f64 (b28 / b36) = of_int (- 7088231335677545) * 2 powi (- 1 - 52)"
      by (rule f64_eqI) (simp_all add: b28_def b36_def)
    also have "\<dots> = b39"
      by (simp add: b39_def)
    finally show ?thesis by (simp only: f64_div_def)
  qed
  have bc4: "b4 < \<bar>b37\<bar>"
    by (simp add: b4_def b37_def)
  have bc5: "b4 < \<bar>b38\<bar>"
    by (simp add: b4_def b38_def)
  have bc6: "b4 < \<bar>b39\<bar>"
    by (simp add: b4_def b39_def)
  have r1: "detect_anomalies_zscore_f64 [b1, b2, b3] b4 = [False, True, True]"
    by (simp add: detect_anomalies_zscore_f64_def np_mean_f64_def np_std_f64_def
        np_sum_f64_def pairwise_sum_short Let_def
        bs1 bs2 bs3 bs4 bs5 bs6 bs7 bs8 bs9 bs10 bs11 bs12
        bs13 bs14 bs15 bs16 bs17 bs18 bs19 bs20 bs21 bs22 bs23 bs24
        bs25 bs26 bc1 bc2 bc3 bs30 bs31 bs32 bs33 bs34 bs35 bs36
        bs37 bs38 bs39 bs40 bs41 bs42 bs43 bs44 bs45 bs46 bs47 bs48
        bs49 bc4 bc5 bc6)
  have r2: "detect_anomalies_zscore_f64 [b1, b3, b2] b4 = [True, True, True]"
    by (simp add: detect_anomalies_zscore_f64_def np_mean_f64_def np_std_f64_def
        np_sum_f64_def pairwise_sum_short Let_def
        bs1 bs2 bs3 bs4 bs5 bs6 bs7 bs8 bs9 bs10 bs11 bs12
        bs13 bs14 bs15 bs16 bs17 bs18 bs19 bs20 bs21 bs22 bs23 bs24
        bs25 bs26 bc1 bc2 bc3 bs30 bs31 bs32 bs33 bs34 bs35 bs36
        bs37 bs38 bs39 bs40 bs41 bs42 bs43 bs44 bs45 bs46 bs47 bs48
        bs49 bc4 bc5 bc6)
  let ?p = "(\<lambda>i. if i = 1 then 2 else if i = 2 then 1 else i) :: nat \<Rightarrow> nat"
  have upt3: "[0..<3] = [0, 1, 2]" by (simp add: upt_rec)
  have bij: "bij_betw ?p {..<3} {..<3}"
    by (rule bij_betw_byWitness [where f' = ?p]) auto
  have p1: "permute_by ?p [b1, b2, b3] = [b1, b3, b2]"
    by (simp add: permute_by_def upt3)
  have p2: "permute_by ?p [False, True, True] = [False, True, True]"
    by (simp add: permute_by_def upt3)
  have l: "length [b1, b2, b3] = 3" by simp
  have ne: "[True, True, True] \<noteq> [False, True, True]" by simp
  show ?thesis
    unfolding bs1 bs2 bs3 bs4 l p1 r1 r2 p2
    using bij ne by simp
qed

section \<open>Properties of the calculation window\<close>

lemma deque_append_maxlen: "maxlen (deque_append d x) = maxlen d"
  by (simp add: deque_append_def Let_def)

lemma trim_is_drop:
  assumes "length A \<le> m"
  shows "(if length (A @ [x]) > m then tl (A @ [x]) else A @ [x])
         = drop (length (A @ [x]) - m) (A @ [x])"
proof (cases "length A = m")
  case True
  then have k: "length (A @ [x]) - m = Suc 0" by simp
  have "tl (A @ [x]) = drop (Suc 0) (A @ [x])" by (simp only: drop_Suc drop_0)
  then show ?thesis using True unfolding k by simp
next
  case False
  with assms have "length A < m" by simp
  then show ?thesis by simp
qed

lemma drop_trimmed_append:
  fixes B vs :: "'a list"
  shows "drop (length (drop (length B - m) B @ vs) - m) (drop (length B - m) B @ vs)
         = drop (length (B @ vs) - m) (B @ vs)"
proof (cases "length B \<le> m")
  case True
  then show ?thesis by simp
next
  case False
  let ?k = "length B - m"
  have e: "drop ?k B @ vs = drop ?k (B @ vs)" by simp
  have j: "length (drop ?k (B @ vs)) - m + ?k = length (B @ vs) - m"
    using False by simp
  show ?thesis
    unfolding e drop_drop j ..
qed

lemma deque_append_items:
  assumes "length (items d) \<le> maxlen d"
  shows "items (deque_append d x)
         = drop (length (items d @ [x]) - maxlen d) (items d @ [x])"
  using trim_is_drop [OF assms, of x] by (simp add: deque_append_def Let_def)

lemma deque_append_bounded:
  assumes "length (items d) \<le> maxlen d"
  shows "length (items (deque_append d x)) \<le> maxlen (deque_append d x)"
  using assms by (simp add: deque_append_items deque_append_maxlen)

lemma deque_extend_maxlen: "maxlen (deque_extend d xs) = maxlen d"
  unfolding deque_extend_def
  by (induction xs arbitrary: d) (simp_all add: deque_append_maxlen)

lemma deque_extend_items:
  assumes "length (items d) \<le> maxlen d"
  shows "items (deque_extend d xs)
         = drop (length (items d @ xs) - maxlen d) (items d @ xs)"
  using assms unfolding deque_extend_def
proof (induction xs arbitrary: d)
  case Nil
  then show ?case by simp
next
  case (Cons x xs)
  let ?d = "deque_append d x"
  have b: "length (items ?d) \<le> maxlen ?d"
    by (rule deque_append_bounded [OF Cons.prems])
  have "items (foldl deque_append ?d xs)
        = drop (length (items ?d @ xs) - maxlen ?d) (items ?d @ xs)"
    by (rule Cons.IH [OF b])
  also have "\<dots> = drop (length ((items d @ [x]) @ xs) - maxlen d) ((items d @ [x]) @ xs)"
    unfolding deque_append_items [OF Cons.prems] deque_append_maxlen
    by (rule drop_trimmed_append)
  finally show ?case by simp
qed

lemma deque_extend_empty:
  "items (deque_extend \<lparr>items = [], maxlen = C\<rparr> vs) = most_recent (min C (length vs)) vs"
proof -
  have "length vs - C = length vs - min C (length vs)" by simp
  then show ?thesis by (simp add: deque_extend_items most_recent_def)
qed

lemma deque_new_items:
  "deque_new xs (int n) = Inr \<lparr>items = most_recent (min n (length xs)) xs, maxlen = n\<rparr>"
proof -
  let ?d = "deque_extend \<lparr>items = [], maxlen = n\<rparr> xs"
  have "items ?d = most_recent (min n (length xs)) xs" by (rule deque_extend_empty)
  moreover have "maxlen ?d = n" by (simp add: deque_extend_maxlen)
  ultimately have "?d = \<lparr>items = most_recent (min n (length xs)) xs, maxlen = n\<rparr>"
    by simp
  then show ?thesis by (simp add: deque_new_def)
qed

lemma sync_window_shrink:
  assumes "length (items (data st)) \<le> maxlen (data st)"
    and "0 \<le> w" and "w < int (length (items (data st)))"
  shows "sync_window w st
         = Inr (st\<lparr>data := \<lparr>items = most_recent (nat w) (items (data st)), maxlen = nat w\<rparr>\<rparr>)"
proof -
  have ne: "w \<noteq> int (maxlen (data st))" using assms by simp
  have m: "min (nat w) (length (items (data st))) = nat w" using assms by simp
  have "deque_new (items (data st)) (int (nat w))
        = Inr \<lparr>items = most_recent (nat w) (items (data st)), maxlen = nat w\<rparr>"
    unfolding deque_new_items m ..
  then show ?thesis using ne assms(2) by (simp add: sync_window_def)
qed

lemma sync_window_grow:
  assumes "length (items (data st)) \<le> maxlen (data st)"
    and "int (length (items (data st))) \<le> w"
  shows "sync_window w st = Inr (st\<lparr>data := \<lparr>items = items (data st), maxlen = nat w\<rparr>\<rparr>)"
proof (cases "w = int (maxlen (data st))")
  case True
  then show ?thesis by (simp add: sync_window_def)
next
  case False
  have w: "0 \<le> w" using assms(2) by simp
  have m: "min (nat w) (length (items (data st))) = length (items (data st))"
    using assms(2) by simp
  have "deque_new (items (data st)) (int (nat w))
        = Inr \<lparr>items = items (data st), maxlen = nat w\<rparr>"
    unfolding deque_new_items m by (simp add: most_recent_def)
  then show ?thesis using False w by (simp add: sync_window_def)
qed

text \<open>
  Claim C5, as amended. A window of capacity \<open>C\<close> that starts empty and only receives
  pushes holds exactly the most recent \<open>min(C, n)\<close> of the \<open>n\<close> values pushed, in push
  order; so after \<open>C + k\<close> pushes it has length \<open>C\<close> and equals the last \<open>C\<close> values pushed.
  The resize of lines 88 and 89 to a capacity below the current length keeps exactly the
  most recent \<open>w\<close> elements; to a capacity of at least the current length it leaves the
  contents as they are and adds nothing. (After such an enlarging resize the window can
  hold fewer than \<open>min(C, number of values pushed)\<close> values.)
\<close>

theorem window_push_and_resize:
  "items (deque_extend \<lparr>items = [], maxlen = C\<rparr> vs) = most_recent (min C (length vs)) vs \<and>
   (length vs = C + k \<longrightarrow>
      length (items (deque_extend \<lparr>items = [], maxlen = C\<rparr> vs)) = C \<and>
      items (deque_extend \<lparr>items = [], maxlen = C\<rparr> vs) = most_recent C vs) \<and>
   (length (items (data st)) \<le> maxlen (data st) \<and> 0 \<le> w \<and> w < int (length (items (data st))) \<longrightarrow>
      sync_window w st
      = Inr (st\<lparr>data := \<lparr>items = most_recent (nat w) (items (data st)), maxlen = nat w\<rparr>\<rparr>)) \<and>
   (length (items (data st)) \<le> maxlen (data st) \<and> int (length (items (data st))) \<le> w \<longrightarrow>
      sync_window w st = Inr (st\<lparr>data := \<lparr>items = items (data st), maxlen = nat w\<rparr>\<rparr>))"
proof -
  have a: "items (deque_extend \<lparr>items = [], maxlen = C\<rparr> vs) = most_recent (min C (length vs)) vs"
    by (rule deque_extend_empty)
  have b: "length vs = C + k \<longrightarrow>
      length (items (deque_extend \<lparr>items = [], maxlen = C\<rparr> vs)) = C \<and>
      items (deque_extend \<lparr>items = [], maxlen = C\<rparr> vs) = most_recent C vs"
    by (simp add: a most_recent_def)
  have c: "length (items (data st)) \<le> maxlen (data st) \<and> 0 \<le> w \<and>
      w < int (length (items (data st))) \<longrightarrow>
      sync_window w st
      = Inr (st\<lparr>data := \<lparr>items = most_recent (nat w) (items (data st)), maxlen = nat w\<rparr>\<rparr>)"
  proof (intro impI, elim conjE)
    assume "length (items (data st)) \<le> maxlen (data st)" "0 \<le> w"
      "w < int (length (items (data st)))"
    then show "sync_window w st
      = Inr (st\<lparr>data := \<lparr>items = most_recent (nat w) (items (data st)), maxlen = nat w\<rparr>\<rparr>)"
      by (rule sync_window_shrink)
  qed
  have d: "length (items (data st)) \<le> maxlen (data st) \<and> int (length (items (data st))) \<le> w \<longrightarrow>
      sync_window w st = Inr (st\<lparr>data := \<lparr>items = items (data st), maxlen = nat w\<rparr>\<rparr>)"
  proof (intro impI, elim conjE)
    assume "length (items (data st)) \<le> maxlen (data st)" "int (length (items (data st))) \<le> w"
    then show "sync_window w st = Inr (st\<lparr>data := \<lparr>items = items (data st), maxlen = nat w\<rparr>\<rparr>)"
      by (rule sync_window_grow)
  qed
  from a b c d show ?thesis by (intro conjI)
qed

theorem window_push_and_resize_witness:
  "items (deque_extend \<lparr>items = [], maxlen = 10\<rparr> [1, 2, 3, 4, 5, 6, 7, 8, 9, 10, 11])
     = [2, 3, 4, 5, 6, 7, 8, 9, 10, 11] \<and>
   sync_window 10 (initial_state\<lparr>data := \<lparr>items = [1, 2, 3, 4, 5, 6, 7, 8, 9, 10, 11, 12], maxlen = 12\<rparr>\<rparr>)
     = Inr (initial_state\<lparr>data := \<lparr>items = [3, 4, 5, 6, 7, 8, 9, 10, 11, 12], maxlen = 10\<rparr>\<rparr>) \<and>
   sync_window 20 (initial_state\<lparr>data := \<lparr>items = [1, 2, 3], maxlen = 10\<rparr>\<rparr>)
     = Inr (initial_state\<lparr>data := \<lparr>items = [1, 2, 3], maxlen = 20\<rparr>\<rparr>)"
proof -
  let ?vs = "[1, 2, 3, 4, 5, 6, 7, 8, 9, 10, 11 :: real]"
  let ?s1 = "initial_state\<lparr>data := \<lparr>items = [1, 2, 3, 4, 5, 6, 7, 8, 9, 10, 11, 12], maxlen = 12\<rparr>\<rparr>"
  let ?s2 = "initial_state\<lparr>data := \<lparr>items = [1, 2, 3], maxlen = 10\<rparr>\<rparr>"
  have a: "items (deque_extend \<lparr>items = [], maxlen = 10\<rparr> ?vs) = [2, 3, 4, 5, 6, 7, 8, 9, 10, 11]"
    using window_push_and_resize [of 10 ?vs 1 ?s1 10]
    by (simp add: most_recent_def)
  have b: "sync_window 10 ?s1
     = Inr (initial_state\<lparr>data := \<lparr>items = [3, 4, 5, 6, 7, 8, 9, 10, 11, 12], maxlen = 10\<rparr>\<rparr>)"
    using window_push_and_resize [of 10 ?vs 1 ?s1 10]
    by (simp add: most_recent_def)
  have c: "sync_window 20 ?s2 = Inr (initial_state\<lparr>data := \<lparr>items = [1, 2, 3], maxlen = 20\<rparr>\<rparr>)"
    using window_push_and_resize [of 10 ?vs 1 ?s2 20]
    by (simp add: most_recent_def)
  from a b c show ?thesis by (intro conjI)
qed

text \<open>
  The claim as stated fails at a resize that enlarges a window which has already evicted:
  capacity 10, eleven pushes, then capacity 11. Before the resize the window holds the
  most recent ten values; after it the window still holds those ten, not the most recent
  \<open>min(11, 11) = 11\<close> values pushed.
\<close>

theorem window_resize_counterexample:
  "holds_most_recent (deque_extend \<lparr>items = [], maxlen = 10\<rparr> [1, 2, 3, 4, 5, 6, 7, 8, 9, 10, 11])
     [1, 2, 3, 4, 5, 6, 7, 8, 9, 10, 11] \<and>
   deque_new (items (deque_extend \<lparr>items = [], maxlen = 10\<rparr> [1, 2, 3, 4, 5, 6, 7, 8, 9, 10, 11])) 11
     = Inr \<lparr>items = [2, 3, 4, 5, 6, 7, 8, 9, 10, 11], maxlen = 11\<rparr> \<and>
   \<not> holds_most_recent \<lparr>items = [2, 3, 4, 5, 6, 7, 8, 9, 10, 11], maxlen = 11\<rparr>
     [1, 2, 3, 4, 5, 6, 7, 8, 9, 10, 11]"
proof -
  let ?vs = "[1, 2, 3, 4, 5, 6, 7, 8, 9, 10, 11 :: real]"
  let ?d = "deque_extend \<lparr>items = [], maxlen = 10\<rparr> ?vs"
  have i: "items ?d = [2, 3, 4, 5, 6, 7, 8, 9, 10, 11]"
    unfolding deque_extend_empty by (simp add: most_recent_def)
  have m: "maxlen ?d = 10"
    unfolding deque_extend_maxlen by simp
  have a: "holds_most_recent ?d ?vs"
    unfolding holds_most_recent_def i m by (simp add: most_recent_def)
  have "deque_new (items ?d) (int 11)
        = Inr \<lparr>items = most_recent (min 11 (length (items ?d))) (items ?d), maxlen = 11\<rparr>"
    by (rule deque_new_items)
  then have b: "deque_new (items ?d) 11
        = Inr \<lparr>items = [2, 3, 4, 5, 6, 7, 8, 9, 10, 11], maxlen = 11\<rparr>"
    unfolding i by (simp add: most_recent_def)
  have c: "\<not> holds_most_recent \<lparr>items = [2, 3, 4, 5, 6, 7, 8, 9, 10, 11], maxlen = 11\<rparr> ?vs"
    by (simp add: holds_most_recent_def most_recent_def)
  from a b c show ?thesis by (intro conjI)
qed

section \<open>Failures of the Isolation Forest fitting step\<close>

text \<open>
  Claim C4, as amended. For a series of fewer than two elements
  \<open>detect_anomalies_isolation_forest\<close> returns all-false without calling the library, so a
  minimum-sample requirement of the library is never what fails. For a series of at least
  two elements a failure of the fitting step is not caught: the exception the library
  raises leaves the function.
\<close>

theorem isolation_forest_failure_propagates:
  "(length series < 2 \<longrightarrow>
      detect_anomalies_isolation_forest fit_predict series contamination
      = Inr (replicate (length series) False)) \<and>
   (2 \<le> length series \<and> fit_predict contamination (reshape_column series) = Inl e \<longrightarrow>
      detect_anomalies_isolation_forest fit_predict series contamination = Inl e)"
  by (simp add: detect_anomalies_isolation_forest_def)

theorem isolation_forest_failure_propagates_witness:
  "detect_anomalies_isolation_forest fit_predict_checked [5] 1 = Inr [False] \<and>
   fit_predict_checked 1 (reshape_column [3, 4, 5]) = Inl InvalidParameterError \<and>
   detect_anomalies_isolation_forest fit_predict_checked [3, 4, 5] 1 = Inl InvalidParameterError"
proof -
  have f: "fit_predict_checked 1 (reshape_column [3, 4, 5]) = Inl InvalidParameterError"
    by (simp add: fit_predict_checked_def)
  have a: "detect_anomalies_isolation_forest fit_predict_checked [5] 1 = Inr [False]"
    using isolation_forest_failure_propagates [of "[5]" fit_predict_checked 1] by simp
  have b: "detect_anomalies_isolation_forest fit_predict_checked [3, 4, 5] 1
           = Inl InvalidParameterError"
    using isolation_forest_failure_propagates
      [of "[3, 4, 5]" fit_predict_checked 1 InvalidParameterError] f
    by simp
  from f a b show ?thesis by blast
qed

text \<open>
  The claim as stated fails: scikit-learn rejects a contamination of 0.7, and on a series
  of two elements the detector raises that error instead of returning all-false.
\<close>

theorem isolation_forest_raises_counterexample:
  "detect_anomalies_isolation_forest fit_predict_checked [1, 2] (7 / 10)
   = Inl InvalidParameterError"
  by (simp add: detect_anomalies_isolation_forest_def fit_predict_checked_def)

section \<open>Properties of the main loop\<close>

lemma observe_fields:
  "all_anomalies (observe inp st) = all_anomalies st"
  "anomaly_log (observe inp st) = anomaly_log st"
  "running (observe inp st) = running st"
  "maxlen (data (observe inp st)) = maxlen (data st)"
  by (simp_all add: observe_def Let_def deque_append_maxlen)

lemma deque_append_length_le: "length (items (deque_append d x)) \<le> length (items d) + 1"
  by (simp add: deque_append_def Let_def)

lemma observe_window_length_le:
  "length (items (data (observe inp st))) \<le> length (items (data st)) + 1"
  using deque_append_length_le [of "data st"] by (simp add: observe_def Let_def)

lemma observe_window_length:
  assumes "length (items (data st)) < maxlen (data st)"
  shows "length (items (data (observe inp st))) = length (items (data st)) + 1"
  using assms by (simp add: observe_def Let_def deque_append_def)

lemma tick_below_capacity:
  assumes "int (length (items (data (observe inp st)))) < window_size cfg"
  shows "tick fit_predict cfg inp st = Inr (observe inp st)"
  using assms by (simp add: tick_def Let_def)

lemma tick_at_capacity:
  assumes "window_size cfg \<le> int (length (items (data (observe inp st))))"
  shows "tick fit_predict cfg inp st = detect_and_log fit_predict cfg (clock inp) (observe inp st)"
  using assms by (simp add: tick_def Let_def)

lemma main_loop_below_capacity:
  assumes "running st"
    and "int (length (items (data st))) + int (length inps) < window_size cfg"
  shows "main_loop fit_predict cfg inps st = Inr (foldl (\<lambda>s i. observe i s) st inps)"
  using assms
proof (induction inps arbitrary: st)
  case Nil
  then show ?case by simp
next
  case (Cons inp inps)
  let ?s = "observe inp st"
  have l: "int (length (items (data ?s))) \<le> int (length (items (data st))) + 1"
    using observe_window_length_le [of inp st] by simp
  with Cons.prems(2) have b: "int (length (items (data ?s))) < window_size cfg" by simp
  have t: "tick fit_predict cfg inp st = Inr ?s" by (rule tick_below_capacity [OF b])
  have r: "running ?s" using Cons.prems(1) by (simp add: observe_fields)
  have "int (length (items (data ?s))) + int (length inps) < window_size cfg"
    using l Cons.prems(2) by simp
  from Cons.IH [OF r this] show ?case
    using Cons.prems(1) t by simp
qed

lemma observe_all_fields:
  "all_anomalies (foldl (\<lambda>s i. observe i s) st inps) = all_anomalies st \<and>
   anomaly_log (foldl (\<lambda>s i. observe i s) st inps) = anomaly_log st"
  by (induction inps arbitrary: st) (simp_all add: observe_fields)

lemma observe_all_window_length:
  assumes "length (items (data st)) + length inps \<le> maxlen (data st)"
  shows "length (items (data (foldl (\<lambda>s i. observe i s) st inps)))
         = length (items (data st)) + length inps"
  using assms
proof (induction inps arbitrary: st)
  case Nil
  then show ?case by simp
next
  case (Cons inp inps)
  let ?s = "observe inp st"
  have "length (items (data st)) < maxlen (data st)" using Cons.prems by simp
  then have l: "length (items (data ?s)) = length (items (data st)) + 1"
    by (rule observe_window_length)
  have "length (items (data ?s)) + length inps \<le> maxlen (data ?s)"
    using Cons.prems l by (simp add: observe_fields)
  from Cons.IH [OF this] show ?case using l by simp
qed

text \<open>
  Claim C6. On every tick, while the length of the window after the push is below the
  configured capacity no detector runs, whatever the library would do, and the newest
  element is treated as not anomalous: the anomaly history and the log stay as they are.
  So a run of iterations that cannot fill the window records nothing, each push into a
  window that is not full lengthens it by one, and the tick at which the window reaches
  its capacity is the first one that goes through detection and can produce a record.
\<close>

theorem detection_waits_for_full_window:
  "(int (length (items (data (observe inp st)))) < window_size cfg \<longrightarrow>
      tick fit_predict cfg inp st = Inr (observe inp st) \<and>
      all_anomalies (observe inp st) = all_anomalies st \<and>
      anomaly_log (observe inp st) = anomaly_log st) \<and>
   (running st \<and> int (length (items (data st))) + int (length inps) < window_size cfg \<longrightarrow>
      main_loop fit_predict cfg inps st = Inr (foldl (\<lambda>s i. observe i s) st inps) \<and>
      all_anomalies (foldl (\<lambda>s i. observe i s) st inps) = all_anomalies st \<and>
      anomaly_log (foldl (\<lambda>s i. observe i s) st inps) = anomaly_log st) \<and>
   (length (items (data st)) + length inps \<le> maxlen (data st) \<longrightarrow>
      length (items (data (foldl (\<lambda>s i. observe i s) st inps)))
      = length (items (data st)) + length inps) \<and>
   (window_size cfg \<le> int (length (items (data (observe inp st)))) \<longrightarrow>
      tick fit_predict cfg inp st
      = detect_and_log fit_predict cfg (clock inp) (observe inp st))"
proof (intro conjI impI)
  assume "int (length (items (data (observe inp st)))) < window_size cfg"
  then show "tick fit_predict cfg inp st = Inr (observe inp st)"
    by (rule tick_below_capacity)
next
  show "all_anomalies (observe inp st) = all_anomalies st" by (rule observe_fields)
next
  show "anomaly_log (observe inp st) = anomaly_log st" by (rule observe_fields)
next
  assume "running st \<and> int (length (items (data st))) + int (length inps) < window_size cfg"
  then show "main_loop fit_predict cfg inps st = Inr (foldl (\<lambda>s i. observe i s) st inps)"
    using main_loop_below_capacity by blast
next
  show "all_anomalies (foldl (\<lambda>s i. observe i s) st inps) = all_anomalies st"
    using observe_all_fields by blast
next
  show "anomaly_log (foldl (\<lambda>s i. observe i s) st inps) = anomaly_log st"
    using observe_all_fields by blast
next
  assume "length (items (data st)) + length inps \<le> maxlen (data st)"
  then show "length (items (data (foldl (\<lambda>s i. observe i s) st inps)))
      = length (items (data st)) + length inps"
    by (rule observe_all_window_length)
next
  assume "window_size cfg \<le> int (length (items (data (observe inp st))))"
  then show "tick fit_predict cfg inp st
      = detect_and_log fit_predict cfg (clock inp) (observe inp st)"
    by (rule tick_at_capacity)
qed

lemma mad_flags_example:
  "detect_anomalies_mad [100, 100, 100, 100, 100, 100, 100, 100, 100, 200] (7 / 2)
   = [False, False, False, False, False, False, False, False, False, True]"
  by (simp add: detect_anomalies_mad_def np_median_def eps_def)

theorem detection_waits_for_full_window_witness:
  "main_loop fit_predict_checked example_config example_calm_inputs example_start
     = Inr example_state_9 \<and>
   all_anomalies example_state_9 = [] \<and>
   length (items (data example_state_9)) = 9 \<and>
   tick fit_predict_checked example_config (shock_tick ''12:00:09'') example_state_9
     = Inr example_state_10 \<and>
   all_anomalies example_state_10 = [(9, 200)]"
proof -
  note inst1 = detection_waits_for_full_window
    [of "shock_tick ''12:00:09''" example_start example_config fit_predict_checked
      example_calm_inputs]
  note inst2 = detection_waits_for_full_window
    [of "shock_tick ''12:00:09''" example_state_9 example_config fit_predict_checked "[]"]
  have f: "foldl (\<lambda>s i. observe i s) example_start example_calm_inputs = example_state_9"
    by (simp add: example_calm_inputs_def calm_tick_def example_start_def initial_state_def
        example_state_9_def observe_def deque_append_def Let_def)
  have h1: "running example_start \<and>
      int (length (items (data example_start))) + int (length example_calm_inputs)
        < window_size example_config"
    by (simp add: example_start_def example_calm_inputs_def example_config_def)
  have a: "main_loop fit_predict_checked example_config example_calm_inputs example_start
      = Inr example_state_9"
    using inst1 [THEN conjunct2, THEN conjunct1, THEN mp, OF h1, THEN conjunct1]
    unfolding f .
  have b: "all_anomalies example_state_9 = []"
    by (simp add: example_state_9_def)
  have h3: "length (items (data example_start)) + length example_calm_inputs
      \<le> maxlen (data example_start)"
    by (simp add: example_start_def example_calm_inputs_def)
  have c: "length (items (data example_state_9)) = 9"
    using inst1 [THEN conjunct2, THEN conjunct2, THEN conjunct1, THEN mp, OF h3]
    unfolding f by (simp add: example_start_def example_calm_inputs_def)
  have o: "observe (shock_tick ''12:00:09'') example_state_9
      = example_state_10\<lparr>anomaly_log := [], all_anomalies := []\<rparr>"
    by (simp add: shock_tick_def example_state_9_def example_state_10_def observe_def
        deque_append_def Let_def)
  have h4: "window_size example_config
      \<le> int (length (items (data (observe (shock_tick ''12:00:09'') example_state_9))))"
    unfolding o by (simp add: example_config_def example_state_10_def)
  have "tick fit_predict_checked example_config (shock_tick ''12:00:09'') example_state_9
      = detect_and_log fit_predict_checked example_config (clock (shock_tick ''12:00:09''))
          (observe (shock_tick ''12:00:09'') example_state_9)"
    by (rule inst2 [THEN conjunct2, THEN conjunct2, THEN conjunct2, THEN mp, OF h4])
  also have "\<dots> = Inr example_state_10"
    unfolding o
    by (simp add: shock_tick_def example_config_def example_state_10_def detect_and_log_def
        run_detector_def mad_flags_example log_anomaly_def Let_def)
  finally have d: "tick fit_predict_checked example_config (shock_tick ''12:00:09'')
      example_state_9 = Inr example_state_10" .
  have e: "all_anomalies example_state_10 = [(9, 200)]"
    by (simp add: example_state_10_def)
  from a b c d e show ?thesis by (intro conjI)
qed

subsection \<open>Anomaly records and the history\<close>

lemma records_consistent_initial: "records_consistent initial_state"
  by (simp add: records_consistent_def initial_state_def)

lemma records_consistent_data_update:
  "records_consistent (st\<lparr>data := d\<rparr>) = records_consistent st"
  by (simp add: records_consistent_def)

lemma records_consistent_running_update:
  "records_consistent (st\<lparr>running := b\<rparr>) = records_consistent st"
  by (simp add: records_consistent_def)

lemma records_consistent_press_reset: "records_consistent (press_reset st)"
  by (simp add: records_consistent_def press_reset_def)

lemma records_consistent_sync_window:
  assumes "records_consistent st"
  shows "records_consistent (state_after (sync_window w st))"
  using assms
  by (simp add: sync_window_def state_after_def records_consistent_data_update
      split: sum.splits)

lemma sidebar_cases:
  "sidebar c st = Inl e \<Longrightarrow>
     \<exists>st3 w. sync_window w st3 = Inl e \<and>
       st3 = (let st1 = (if start_pressed c then press_start st else st);
                  st2 = (if stop_pressed c then press_stop st1 else st1)
              in if reset_pressed c then press_reset st2 else st2)"
  "sidebar c st = Inr (cfg, st') \<Longrightarrow>
     \<exists>st3 w. sync_window w st3 = Inr st' \<and>
       st3 = (let st1 = (if start_pressed c then press_start st else st);
                  st2 = (if stop_pressed c then press_stop st1 else st1)
              in if reset_pressed c then press_reset st2 else st2)"
  by (auto simp: sidebar_def Let_def split: sum.splits)

lemma records_consistent_buttons:
  assumes "records_consistent st"
  shows "records_consistent
           (let st1 = (if start_pressed c then press_start st else st);
                st2 = (if stop_pressed c then press_stop st1 else st1)
            in if reset_pressed c then press_reset st2 else st2)"
  using assms
  by (simp add: Let_def records_consistent_press_reset press_start_def press_stop_def
      records_consistent_running_update)

lemma records_consistent_sidebar_Inl:
  assumes "records_consistent st" and "sidebar c st = Inl (e, st')"
  shows "records_consistent st'"
proof -
  from sidebar_cases(1) [OF assms(2)] obtain st3 w
    where s: "sync_window w st3 = Inl (e, st')"
      and b: "st3 = (let st1 = (if start_pressed c then press_start st else st);
                  st2 = (if stop_pressed c then press_stop st1 else st1)
              in if reset_pressed c then press_reset st2 else st2)"
    by blast
  have "records_consistent st3" unfolding b by (rule records_consistent_buttons [OF assms(1)])
  from records_consistent_sync_window [OF this, of w] show ?thesis
    by (simp add: s state_after_def)
qed

lemma records_consistent_sidebar_Inr:
  assumes "records_consistent st" and "sidebar c st = Inr (cfg, st')"
  shows "records_consistent st'"
proof -
  from sidebar_cases(2) [OF assms(2)] obtain st3 w
    where s: "sync_window w st3 = Inr st'"
      and b: "st3 = (let st1 = (if start_pressed c then press_start st else st);
                  st2 = (if stop_pressed c then press_stop st1 else st1)
              in if reset_pressed c then press_reset st2 else st2)"
    by blast
  have "records_consistent st3" unfolding b by (rule records_consistent_buttons [OF assms(1)])
  from records_consistent_sync_window [OF this, of w] show ?thesis
    by (simp add: s state_after_def)
qed

lemma deque_append_last:
  assumes "items (deque_append d x) \<noteq> []"
  shows "last (items (deque_append d x)) = x"
proof (cases "length (items d @ [x]) > maxlen d")
  case True
  then have i: "items (deque_append d x) = tl (items d @ [x])"
    by (simp add: deque_append_def Let_def)
  with assms have "tl (items d @ [x]) \<noteq> []" by simp
  then have "last (tl (items d @ [x])) = last (items d @ [x])"
    by (cases "items d") simp_all
  then show ?thesis unfolding i by simp
next
  case False
  then show ?thesis by (simp add: deque_append_def Let_def)
qed

lemma observe_just_pushed:
  assumes "records_consistent st"
  shows "just_pushed (observe inp st)"
proof -
  define p where "p = max (price st + (drift inp + (if rand inp < 5 / 100 then shock_draw inp else 0))) 10"
  have o: "observe inp st = st\<lparr>price := p, data := deque_append (data st) p,
             all_data := all_data st @ [p], time_step := time_step st + 1\<rparr>"
    by (simp add: observe_def Let_def p_def)
  have t: "time_step st = int (length (all_data st))"
    using assms by (simp add: records_consistent_def)
  have r: "\<And>i v. (i, v) \<in> set (all_anomalies st) \<Longrightarrow>
             0 \<le> i \<and> i < time_step st \<and> all_data st ! nat i = v"
    using assms by (auto simp: records_consistent_def)
  have s: "sorted_wrt (<) (map fst (all_anomalies st))"
    using assms by (simp add: records_consistent_def)
  have c: "records_consistent (observe inp st)"
    unfolding o records_consistent_def
  proof (intro conjI ballI)
    show "time_step (st\<lparr>price := p, data := deque_append (data st) p,
             all_data := all_data st @ [p], time_step := time_step st + 1\<rparr>)
          = int (length (all_data (st\<lparr>price := p, data := deque_append (data st) p,
             all_data := all_data st @ [p], time_step := time_step st + 1\<rparr>)))"
      using t by simp
  next
    fix x assume "x \<in> set (all_anomalies (st\<lparr>price := p, data := deque_append (data st) p,
             all_data := all_data st @ [p], time_step := time_step st + 1\<rparr>))"
    then have m: "(fst x, snd x) \<in> set (all_anomalies st)" by simp
    from r [OF m] t have "nat (fst x) < length (all_data st)" by linarith
    then have "(all_data st @ [p]) ! nat (fst x) = all_data st ! nat (fst x)"
      by (simp add: nth_append)
    with r [OF m]
    show "case x of (i, v) \<Rightarrow> 0 \<le> i \<and>
            i < time_step (st\<lparr>price := p, data := deque_append (data st) p,
             all_data := all_data st @ [p], time_step := time_step st + 1\<rparr>) \<and>
            all_data (st\<lparr>price := p, data := deque_append (data st) p,
             all_data := all_data st @ [p], time_step := time_step st + 1\<rparr>) ! nat i = v"
      by (simp add: case_prod_beta)
  next
    show "sorted_wrt (<) (map fst (all_anomalies (st\<lparr>price := p,
             data := deque_append (data st) p,
             all_data := all_data st @ [p], time_step := time_step st + 1\<rparr>)))"
      using s by simp
  qed
  have f: "\<forall>(i, v) \<in> set (all_anomalies (observe inp st)). i < time_step (observe inp st) - 1"
    unfolding o using r by auto
  have l: "items (data (observe inp st)) \<noteq> [] \<longrightarrow>
        all_data (observe inp st) \<noteq> [] \<and>
        last (items (data (observe inp st))) = last (all_data (observe inp st))"
    unfolding o using deque_append_last [of "data st" p] by simp
  from c f l show ?thesis unfolding just_pushed_def by (intro conjI)
qed

lemma log_anomaly_consistent:
  assumes "just_pushed st"
  shows "records_consistent (state_after (log_anomaly now (items (data st)) st))"
proof (cases "items (data st) = []")
  case True
  then show ?thesis using assms by (simp add: log_anomaly_def state_after_def just_pushed_def)
next
  case False
  have c: "records_consistent st" using assms by (simp add: just_pushed_def)
  have ne: "all_data st \<noteq> []" and la: "last (items (data st)) = last (all_data st)"
    using assms False by (simp_all add: just_pushed_def)
  have t: "time_step st = int (length (all_data st))"
    using c by (simp add: records_consistent_def)
  have r: "\<And>i v. (i, v) \<in> set (all_anomalies st) \<Longrightarrow>
             0 \<le> i \<and> i < time_step st \<and> all_data st ! nat i = v"
    using c by (auto simp: records_consistent_def)
  have f: "\<And>i v. (i, v) \<in> set (all_anomalies st) \<Longrightarrow> i < time_step st - 1"
    using assms by (auto simp: just_pushed_def)
  have s: "sorted_wrt (<) (map fst (all_anomalies st))"
    using c by (simp add: records_consistent_def)
  let ?rec = "(time_step st - 1, last (items (data st)))"
  have n: "nat (time_step st - 1) = length (all_data st) - 1"
    using t by simp
  have v: "all_data st ! nat (time_step st - 1) = last (items (data st))"
    unfolding n la using ne by (simp add: last_conv_nth)
  have p: "0 \<le> time_step st - 1 \<and> time_step st - 1 < time_step st"
    using t ne by (cases "all_data st") simp_all
  have k: "records_consistent (st\<lparr>all_anomalies := all_anomalies st @ [?rec]\<rparr>)"
    unfolding records_consistent_def
  proof (intro conjI ballI)
    show "time_step (st\<lparr>all_anomalies := all_anomalies st @ [?rec]\<rparr>)
          = int (length (all_data (st\<lparr>all_anomalies := all_anomalies st @ [?rec]\<rparr>)))"
      using t by simp
  next
    fix x assume "x \<in> set (all_anomalies (st\<lparr>all_anomalies := all_anomalies st @ [?rec]\<rparr>))"
    then have "x = ?rec \<or> (fst x, snd x) \<in> set (all_anomalies st)" by auto
    then show "case x of (i, v) \<Rightarrow> 0 \<le> i \<and>
            i < time_step (st\<lparr>all_anomalies := all_anomalies st @ [?rec]\<rparr>) \<and>
            all_data (st\<lparr>all_anomalies := all_anomalies st @ [?rec]\<rparr>) ! nat i = v"
    proof
      assume "x = ?rec"
      then show ?thesis using p v by simp
    next
      assume "(fst x, snd x) \<in> set (all_anomalies st)"
      from r [OF this] show ?thesis by (simp add: case_prod_beta)
    qed
  next
    have "\<forall>a\<in>set (all_anomalies st). fst a < time_step st - 1"
      using f by auto
    then show "sorted_wrt (<) (map fst (all_anomalies (st\<lparr>all_anomalies := all_anomalies st @ [?rec]\<rparr>)))"
      using s by (simp add: sorted_wrt_append)
  qed
  have u: "\<And>s' l. records_consistent (s'\<lparr>anomaly_log := l\<rparr>) = records_consistent s'"
    by (simp add: records_consistent_def)
  have "state_after (log_anomaly now (items (data st)) st)
        = (st\<lparr>all_anomalies := all_anomalies st @ [?rec]\<rparr>)
            \<lparr>anomaly_log := anomaly_log (state_after (log_anomaly now (items (data st)) st))\<rparr>"
    using False by (simp add: log_anomaly_def state_after_def Let_def)
  then show ?thesis using k u by metis
qed

lemma detect_and_log_consistent:
  assumes "just_pushed st"
  shows "records_consistent (state_after (detect_and_log fit_predict cfg now st))"
proof -
  have c: "records_consistent st" using assms by (simp add: just_pushed_def)
  have e: "\<And>e. records_consistent (state_after (Inl (e, st)))"
    using c by (simp add: state_after_def)
  have d: "records_consistent (state_after (Inr st))"
    using c by (simp add: state_after_def)
  show ?thesis
    unfolding detect_and_log_def Let_def
    using e d log_anomaly_consistent [OF assms, of now]
    by (simp split: sum.splits)
qed

lemma tick_consistent:
  assumes "records_consistent st"
  shows "records_consistent (state_after (tick fit_predict cfg inp st))"
proof -
  have j: "just_pushed (observe inp st)" by (rule observe_just_pushed [OF assms])
  then have c: "records_consistent (state_after (Inr (observe inp st)))"
    by (simp add: just_pushed_def state_after_def)
  show ?thesis
    unfolding tick_def Let_def
    using c detect_and_log_consistent [OF j, of fit_predict cfg "clock inp"]
    by simp
qed

lemma main_loop_consistent:
  assumes "records_consistent st"
  shows "records_consistent (state_after (main_loop fit_predict cfg inps st))"
  using assms
proof (induction inps arbitrary: st)
  case Nil
  then show ?case by (simp add: state_after_def)
next
  case (Cons inp inps)
  show ?case
  proof (cases "running st")
    case False
    then show ?thesis using Cons.prems by (simp add: state_after_def)
  next
    case True
    have t: "records_consistent (state_after (tick fit_predict cfg inp st))"
      by (rule tick_consistent [OF Cons.prems])
    show ?thesis
    proof (cases "tick fit_predict cfg inp st")
      case (Inl e)
      then show ?thesis using True t by (simp add: state_after_def)
    next
      case (Inr st')
      with t have "records_consistent st'" by (simp add: state_after_def)
      from Cons.IH [OF this] show ?thesis using True Inr by simp
    qed
  qed
qed

lemma script_run_consistent:
  assumes "records_consistent st"
  shows "records_consistent (state_after (script_run fit_predict c inps st))"
proof (cases "sidebar c st")
  case (Inl e)
  obtain x st' where e: "e = (x, st')" by (cases e)
  from records_consistent_sidebar_Inl [OF assms Inl [unfolded e]]
  show ?thesis using Inl e by (simp add: script_run_def state_after_def)
next
  case (Inr r)
  obtain cfg st' where r: "r = (cfg, st')" by (cases r)
  from records_consistent_sidebar_Inr [OF assms Inr [unfolded r]]
  have "records_consistent st'" .
  from main_loop_consistent [OF this] show ?thesis using Inr r by (simp add: script_run_def)
qed

lemma session_consistent:
  assumes "records_consistent st"
  shows "records_consistent (session fit_predict runs st)"
  using assms
proof (induction runs arbitrary: st)
  case Nil
  then show ?case by simp
next
  case (Cons r runs)
  obtain c inps where r: "r = (c, inps)" by (cases r)
  from Cons.IH [OF script_run_consistent [OF Cons.prems]] show ?case
    unfolding r by simp
qed

lemma tick_appends:
  assumes "tick fit_predict cfg inp st = Inr st'"
  shows "all_anomalies st' = all_anomalies st \<or>
         all_anomalies st' = all_anomalies st @ [(time_step st, price st')]"
proof -
  let ?s = "observe inp st"
  have a: "all_anomalies ?s = all_anomalies st" by (rule observe_fields)
  have t: "time_step ?s - 1 = time_step st" by (simp add: observe_def Let_def)
  have p: "items (data ?s) \<noteq> [] \<Longrightarrow> last (items (data ?s)) = price ?s"
    using deque_append_last [of "data st"] by (simp add: observe_def Let_def)
  have l: "\<And>now s'. log_anomaly now (items (data ?s)) ?s = Inr s' \<Longrightarrow>
              all_anomalies s' = all_anomalies st @ [(time_step st, price s')]"
    using a t p by (auto simp: log_anomaly_def Let_def split: if_splits)
  show ?thesis
    using assms a l
    by (auto simp: tick_def detect_and_log_def Let_def split: if_splits sum.splits)
qed

text \<open>
  Claim C10. In every state a session reaches from the initial state, whatever the
  controls, the inputs and the library do, \<^verbatim>\<open>time_step\<close> is the length of \<^verbatim>\<open>all_data\<close>, every
  record \<open>(i, v)\<close> of \<^verbatim>\<open>all_anomalies\<close> has \<open>0 \<le> i < time_step\<close> and \<^verbatim>\<open>all_data[i] = v\<close>, and the
  recorded indices are strictly increasing. A tick appends at most one record, and that
  record is the zero-based time step of the value just pushed together with that value.
\<close>

theorem anomaly_records_match_history:
  "time_step (session fit_predict runs initial_state)
     = int (length (all_data (session fit_predict runs initial_state))) \<and>
   (\<forall>(i, v) \<in> set (all_anomalies (session fit_predict runs initial_state)).
      0 \<le> i \<and> i < time_step (session fit_predict runs initial_state) \<and>
      all_data (session fit_predict runs initial_state) ! nat i = v) \<and>
   sorted_wrt (<) (map fst (all_anomalies (session fit_predict runs initial_state))) \<and>
   (tick fit_predict cfg inp st = Inr st' \<longrightarrow>
      all_anomalies st' = all_anomalies st \<or>
      all_anomalies st' = all_anomalies st @ [(time_step st, price st')])"
proof -
  have "records_consistent (session fit_predict runs initial_state)"
    by (rule session_consistent [OF records_consistent_initial])
  then have a: "time_step (session fit_predict runs initial_state)
       = int (length (all_data (session fit_predict runs initial_state))) \<and>
     (\<forall>(i, v) \<in> set (all_anomalies (session fit_predict runs initial_state)).
        0 \<le> i \<and> i < time_step (session fit_predict runs initial_state) \<and>
        all_data (session fit_predict runs initial_state) ! nat i = v) \<and>
     sorted_wrt (<) (map fst (all_anomalies (session fit_predict runs initial_state)))"
    unfolding records_consistent_def .
  have b: "tick fit_predict cfg inp st = Inr st' \<longrightarrow>
      all_anomalies st' = all_anomalies st \<or>
      all_anomalies st' = all_anomalies st @ [(time_step st, price st')]"
    using tick_appends [of fit_predict cfg inp st st'] by (rule impI)
  show ?thesis
    by (rule conjI [OF a [THEN conjunct1]
          conjI [OF a [THEN conjunct2, THEN conjunct1]
            conjI [OF a [THEN conjunct2, THEN conjunct2] b]]])
qed

lemma sidebar_example:
  "sidebar example_controls initial_state
   = Inr (example_config, example_start)"
  by (simp add: sidebar_def slider_def select_method_def press_start_def example_controls_def
      example_config_def example_start_def sync_window_def deque_new_def deque_extend_def
      initial_state_def Let_def)

lemma calm_prefix_example:
  "main_loop fit_predict_checked example_config example_calm_inputs
     example_start
   = Inr example_state_9"
  by (simp add: example_calm_inputs_def calm_tick_def example_config_def initial_state_def
      example_start_def
      example_state_9_def tick_def observe_def deque_append_def Let_def)

lemma shock_tick_example:
  "tick fit_predict_checked example_config (shock_tick ''12:00:09'') example_state_9
   = Inr example_state_10"
  by (simp add: shock_tick_def example_config_def example_state_9_def example_state_10_def
      tick_def observe_def deque_append_def detect_and_log_def run_detector_def
      mad_flags_example log_anomaly_def Let_def)

lemma main_loop_append:
  assumes "main_loop fit_predict cfg inps st = Inr st1"
  shows "main_loop fit_predict cfg (inps @ rest) st = main_loop fit_predict cfg rest st1"
  using assms
proof (induction inps arbitrary: st)
  case Nil
  then show ?case by simp
next
  case (Cons inp inps)
  show ?case
  proof (cases "running st")
    case False
    with Cons.prems have "st1 = st" by simp
    with False show ?thesis by (cases rest) simp_all
  next
    case True
    then show ?thesis using Cons by (auto split: sum.splits)
  qed
qed

lemma session_example:
  "session fit_predict_checked
     [(example_controls, example_calm_inputs @ [shock_tick ''12:00:09''])] initial_state
   = example_state_10"
proof -
  have r: "running example_state_9" by (simp add: example_state_9_def)
  have "main_loop fit_predict_checked example_config
          (example_calm_inputs @ [shock_tick ''12:00:09''])
          example_start
        = main_loop fit_predict_checked example_config [shock_tick ''12:00:09''] example_state_9"
    by (rule main_loop_append [OF calm_prefix_example])
  also have "\<dots> = Inr example_state_10"
    using r by (simp add: shock_tick_example)
  finally show ?thesis
    by (simp add: script_run_def sidebar_example state_after_def)
qed

theorem anomaly_records_match_history_witness:
  "tick fit_predict_checked example_config (shock_tick ''12:00:09'') example_state_9
     = Inr example_state_10 \<and>
   all_anomalies example_state_10
     = all_anomalies example_state_9 @ [(time_step example_state_9, price example_state_10)] \<and>
   all_anomalies (session fit_predict_checked
     [(example_controls, example_calm_inputs @ [shock_tick ''12:00:09''])] initial_state)
     = [(9, 200)] \<and>
   all_data (session fit_predict_checked
     [(example_controls, example_calm_inputs @ [shock_tick ''12:00:09''])] initial_state) ! 9
     = 200"
proof -
  let ?S = "session fit_predict_checked
     [(example_controls, example_calm_inputs @ [shock_tick ''12:00:09''])] initial_state"
  note inst = anomaly_records_match_history
    [of fit_predict_checked "[(example_controls, example_calm_inputs @ [shock_tick ''12:00:09''])]"
      example_config "shock_tick ''12:00:09''" example_state_9 example_state_10]
  have t: "tick fit_predict_checked example_config (shock_tick ''12:00:09'') example_state_9
     = Inr example_state_10"
    by (rule shock_tick_example)
  have ne: "all_anomalies example_state_10 \<noteq> all_anomalies example_state_9"
    by (simp add: example_state_9_def example_state_10_def)
  have "all_anomalies example_state_10 = all_anomalies example_state_9 \<or>
      all_anomalies example_state_10
      = all_anomalies example_state_9 @ [(time_step example_state_9, price example_state_10)]"
    by (rule inst [THEN conjunct2, THEN conjunct2, THEN conjunct2, THEN mp, OF t])
  then have a: "all_anomalies example_state_10
     = all_anomalies example_state_9 @ [(time_step example_state_9, price example_state_10)]"
  proof
    assume "all_anomalies example_state_10 = all_anomalies example_state_9"
    with ne show ?thesis by (rule notE)
  next
    assume "all_anomalies example_state_10
      = all_anomalies example_state_9 @ [(time_step example_state_9, price example_state_10)]"
    then show ?thesis .
  qed
  have e: "all_anomalies ?S = [(9, 200)]"
    unfolding session_example by (simp add: example_state_10_def)
  have "\<forall>(i, v) \<in> set (all_anomalies ?S).
      0 \<le> i \<and> i < time_step ?S \<and> all_data ?S ! nat i = v"
    by (rule inst [THEN conjunct2, THEN conjunct1])
  then have "\<forall>(i, v) \<in> set [(9, 200)]. 0 \<le> i \<and> i < time_step ?S \<and> all_data ?S ! nat i = v"
    by (simp only: e)
  then have d: "all_data ?S ! 9 = 200"
    by (simp del: session.simps)
  from t a e d show ?thesis by (intro conjI)
qed

section \<open>The window capacity in every reachable state\<close>












end
